theory Spec2Isabelle
  imports Complex_Main "HOL-Library.Multiset" "HOL-Library.Char_ord" "HOL-Library.List_Lexorder"
begin

section \<open>Python values\<close>

text \<open>
  The optimizer of \<^verbatim>\<open>src/backend/optimizer.py\<close> works on Python floats and on cells of
  pandas rows. A float is finite, one of the two infinities, or not-a-number; a finite
  float is given by the real number it denotes. Comparisons of floats are exact.
  Arithmetic on finite floats rounds, may overflow, and for the functions of the
  \<^verbatim>\<open>math\<close> module depends on the C library; what it returns on finite arguments is
  therefore not fixed here but taken from a parameter, the \<open>float_unit\<close> below, and
  every result about \<^verbatim>\<open>calculate_distance\<close> and \<^verbatim>\<open>optimize\<close> holds for every float
  unit.
\<close>

datatype pyfloat = Fin real | PInf | NInf | NaN

text \<open>
  A cell is a number (a Python \<^verbatim>\<open>int\<close> or \<^verbatim>\<open>float\<close>, by its value), a string,
  \<^verbatim>\<open>None\<close>, or some other object (a list or a dict).
\<close>

datatype pyval = Num pyfloat | Str string | NoneVal | PyObj

text \<open>
  The exceptions the code can meet. \<open>OptimizationError e\<close> is the \<^verbatim>\<open>ValueError\<close>
  that \<^verbatim>\<open>optimize\<close> raises from its handler, carrying the message of \<open>e\<close>.
\<close>

datatype error =
  KeyError | TypeError | ValueError | IndexError | OverflowError | OptimizationError error

definition bind_err :: "error + 'a \<Rightarrow> ('a \<Rightarrow> error + 'b) \<Rightarrow> error + 'b" where
  "bind_err m f = (case m of Inl e \<Rightarrow> Inl e | Inr x \<Rightarrow> f x)"

subsection \<open>The float unit\<close>

text \<open>
  What the machine (CPython on its hardware floats and C library) does on finite
  arguments:
  \<^item> \<open>float_of_str\<close>: \<^verbatim>\<open>float(s)\<close> for a string, \<open>None\<close> where it raises \<^verbatim>\<open>ValueError\<close>;
  \<^item> \<open>float_of_number\<close>: \<^verbatim>\<open>float(x)\<close> for a finite number, which is \<open>x\<close> for a float, a
    nearby float for an \<^verbatim>\<open>int\<close>, and \<^verbatim>\<open>OverflowError\<close> for an \<^verbatim>\<open>int\<close> too large;
  \<^item> \<open>point_one\<close>: the float that the literal \<^verbatim>\<open>0.1\<close> denotes;
  \<^item> \<open>add_fin\<close>, \<open>sub_fin\<close>, \<open>mul_fin\<close>, \<open>half_fin\<close>: \<^verbatim>\<open>x + y\<close>, \<^verbatim>\<open>x - y\<close>, \<^verbatim>\<open>x * y\<close> and
    \<^verbatim>\<open>x / 2\<close>, which raise nothing;
  \<^item> \<open>square_fin\<close>: \<^verbatim>\<open>x ** 2\<close>, which raises \<^verbatim>\<open>OverflowError\<close> when the result is out
    of range;
  \<^item> \<open>radians_fin\<close>, \<open>sin_fin\<close>, \<open>cos_fin\<close>: the functions of \<^verbatim>\<open>math\<close>; \<open>sqrt_fin\<close>:
    \<^verbatim>\<open>math.sqrt\<close> at an argument that is not negative;
  \<^item> \<open>atan2_num\<close>: \<^verbatim>\<open>math.atan2\<close> at arguments that are not not-a-number.
\<close>

record float_unit =
  float_of_str :: "string \<Rightarrow> pyfloat option"
  float_of_number :: "real \<Rightarrow> error + pyfloat"
  point_one :: real
  add_fin :: "real \<Rightarrow> real \<Rightarrow> pyfloat"
  sub_fin :: "real \<Rightarrow> real \<Rightarrow> pyfloat"
  mul_fin :: "real \<Rightarrow> real \<Rightarrow> pyfloat"
  half_fin :: "real \<Rightarrow> pyfloat"
  square_fin :: "real \<Rightarrow> error + pyfloat"
  radians_fin :: "real \<Rightarrow> pyfloat"
  sin_fin :: "real \<Rightarrow> pyfloat"
  cos_fin :: "real \<Rightarrow> pyfloat"
  sqrt_fin :: "real \<Rightarrow> pyfloat"
  atan2_num :: "pyfloat \<Rightarrow> pyfloat \<Rightarrow> pyfloat"

subsection \<open>Float arithmetic\<close>

text \<open>The operations on all floats: the special values as IEEE 754 has them.\<close>

fun py_add :: "float_unit \<Rightarrow> pyfloat \<Rightarrow> pyfloat \<Rightarrow> pyfloat" where
  "py_add fu (Fin a) (Fin b) = add_fin fu a b"
| "py_add fu NaN _ = NaN"
| "py_add fu _ NaN = NaN"
| "py_add fu PInf NInf = NaN"
| "py_add fu NInf PInf = NaN"
| "py_add fu PInf _ = PInf"
| "py_add fu _ PInf = PInf"
| "py_add fu NInf _ = NInf"
| "py_add fu _ NInf = NInf"

fun py_sub :: "float_unit \<Rightarrow> pyfloat \<Rightarrow> pyfloat \<Rightarrow> pyfloat" where
  "py_sub fu (Fin a) (Fin b) = sub_fin fu a b"
| "py_sub fu NaN _ = NaN"
| "py_sub fu _ NaN = NaN"
| "py_sub fu PInf PInf = NaN"
| "py_sub fu NInf NInf = NaN"
| "py_sub fu PInf _ = PInf"
| "py_sub fu _ NInf = PInf"
| "py_sub fu NInf _ = NInf"
| "py_sub fu _ PInf = NInf"

definition inf_of_sign :: "real \<Rightarrow> pyfloat" where
  "inf_of_sign s = (if s = 0 then NaN else if 0 < s then PInf else NInf)"

fun py_mul :: "float_unit \<Rightarrow> pyfloat \<Rightarrow> pyfloat \<Rightarrow> pyfloat" where
  "py_mul fu (Fin a) (Fin b) = mul_fin fu a b"
| "py_mul fu NaN _ = NaN"
| "py_mul fu _ NaN = NaN"
| "py_mul fu PInf (Fin b) = inf_of_sign b"
| "py_mul fu NInf (Fin b) = inf_of_sign (- b)"
| "py_mul fu (Fin a) PInf = inf_of_sign a"
| "py_mul fu (Fin a) NInf = inf_of_sign (- a)"
| "py_mul fu PInf PInf = PInf"
| "py_mul fu NInf NInf = PInf"
| "py_mul fu PInf NInf = NInf"
| "py_mul fu NInf PInf = NInf"

text \<open>\<^verbatim>\<open>x / 2\<close> and \<^verbatim>\<open>x ** 2\<close>.\<close>

fun py_half :: "float_unit \<Rightarrow> pyfloat \<Rightarrow> pyfloat" where
  "py_half fu (Fin a) = half_fin fu a"
| "py_half fu x = x"

fun py_square :: "float_unit \<Rightarrow> pyfloat \<Rightarrow> error + pyfloat" where
  "py_square fu (Fin a) = square_fin fu a"
| "py_square fu NaN = Inr NaN"
| "py_square fu _ = Inr PInf"

text \<open>\<^verbatim>\<open>x < y\<close> on floats: every comparison with not-a-number is false.\<close>

fun py_lt :: "pyfloat \<Rightarrow> pyfloat \<Rightarrow> bool" where
  "py_lt (Fin a) (Fin b) = (a < b)"
| "py_lt NaN _ = False"
| "py_lt _ NaN = False"
| "py_lt _ NInf = False"
| "py_lt PInf _ = False"
| "py_lt NInf _ = True"
| "py_lt _ PInf = True"

subsection \<open>The \<^verbatim>\<open>math\<close> module and \<^verbatim>\<open>float()\<close>\<close>

fun radians :: "float_unit \<Rightarrow> pyfloat \<Rightarrow> pyfloat" where
  "radians fu (Fin a) = radians_fin fu a"
| "radians fu x = x"

text \<open>\<^verbatim>\<open>math.sin\<close> and \<^verbatim>\<open>math.cos\<close> raise \<^verbatim>\<open>ValueError\<close> at an infinity.\<close>

fun py_sin :: "float_unit \<Rightarrow> pyfloat \<Rightarrow> error + pyfloat" where
  "py_sin fu (Fin a) = Inr (sin_fin fu a)"
| "py_sin fu NaN = Inr NaN"
| "py_sin fu _ = Inl ValueError"

fun py_cos :: "float_unit \<Rightarrow> pyfloat \<Rightarrow> error + pyfloat" where
  "py_cos fu (Fin a) = Inr (cos_fin fu a)"
| "py_cos fu NaN = Inr NaN"
| "py_cos fu _ = Inl ValueError"

text \<open>\<^verbatim>\<open>math.sqrt\<close> raises \<^verbatim>\<open>ValueError\<close> below zero.\<close>

fun py_sqrt :: "float_unit \<Rightarrow> pyfloat \<Rightarrow> error + pyfloat" where
  "py_sqrt fu (Fin a) = (if a < 0 then Inl ValueError else Inr (sqrt_fin fu a))"
| "py_sqrt fu NaN = Inr NaN"
| "py_sqrt fu PInf = Inr PInf"
| "py_sqrt fu NInf = Inl ValueError"

text \<open>\<^verbatim>\<open>math.atan2\<close> never raises; not-a-number in gives not-a-number out.\<close>

definition py_atan2 :: "float_unit \<Rightarrow> pyfloat \<Rightarrow> pyfloat \<Rightarrow> pyfloat" where
  "py_atan2 fu y x = (if y = NaN \<or> x = NaN then NaN else atan2_num fu y x)"

text \<open>
  \<^verbatim>\<open>float(v)\<close>: a float is returned as it is, an \<^verbatim>\<open>int\<close> is converted, a string is
  parsed, anything else is a \<^verbatim>\<open>TypeError\<close>.
\<close>

fun to_float :: "float_unit \<Rightarrow> pyfloat \<Rightarrow> error + pyfloat" where
  "to_float fu (Fin a) = float_of_number fu a"
| "to_float fu x = Inr x"

fun py_float :: "float_unit \<Rightarrow> pyval \<Rightarrow> error + pyfloat" where
  "py_float fu (Num x) = to_float fu x"
| "py_float fu (Str s) = (case float_of_str fu s of None \<Rightarrow> Inl ValueError | Some x \<Rightarrow> Inr x)"
| "py_float fu NoneVal = Inl TypeError"
| "py_float fu PyObj = Inl TypeError"

text \<open>\<^verbatim>\<open>row[label]\<close> on a pandas row: \<^verbatim>\<open>KeyError\<close> where the row has no such label.\<close>

fun getitem :: "pyval option \<Rightarrow> error + pyval" where
  "getitem None = Inl KeyError"
| "getitem (Some v) = Inr v"

section \<open>The data model\<close>

record warehouse =
  warehouse_id :: string
  latitude :: "pyval option"
  longitude :: "pyval option"
  storage_cost :: pyval

record order_row =
  order_id :: string
  product_id :: string
  quantity :: int
  status :: string
  delivery_latitude :: "pyval option"
  delivery_longitude :: "pyval option"

text \<open>One row of the inventory frame: the stock of one product in one warehouse.\<close>

record stock_record =
  stock_warehouse_id :: string
  stock_product_id :: string
  current_stock :: int

record optimizer =
  solver_time :: int
  current_datetime :: string
  current_user :: string

definition init_optimizer :: optimizer where
  "init_optimizer =
     \<lparr>solver_time = 20, current_datetime = ''2025-03-24 21:07:26'',
      current_user = ''tanishpoddar''\<rparr>"

section \<open>\<^verbatim>\<open>calculate_distance\<close>\<close>

text \<open>
  The body of the \<^verbatim>\<open>try\<close> block, statement by statement and in Python's order of
  evaluation; \<open>Inl\<close> is the exception that leaves it.
\<close>

definition haversine ::
  "float_unit \<Rightarrow> pyfloat \<Rightarrow> pyfloat \<Rightarrow> pyfloat \<Rightarrow> pyfloat \<Rightarrow> error + pyfloat" where
  "haversine fu lat1 lon1 lat2 lon2 =
     (let dlat = py_sub fu lat2 lat1; dlon = py_sub fu lon2 lon1 in
      bind_err (py_sin fu (py_half fu dlat)) (\<lambda>s1.
      bind_err (py_square fu s1) (\<lambda>q1.
      bind_err (py_cos fu lat1) (\<lambda>c1.
      bind_err (py_cos fu lat2) (\<lambda>c2.
      bind_err (py_sin fu (py_half fu dlon)) (\<lambda>s2.
      bind_err (py_square fu s2) (\<lambda>q2.
      let a = py_add fu q1 (py_mul fu (py_mul fu c1 c2) q2) in
      bind_err (py_sqrt fu a) (\<lambda>ra.
      bind_err (py_sqrt fu (py_sub fu (Fin 1) a)) (\<lambda>rb.
      let c = py_mul fu (Fin 2) (py_atan2 fu ra rb); r = Fin 6371 in
      Inr (py_mul fu c r))))))))))"

definition calculate_distance_try :: "float_unit \<Rightarrow> warehouse \<Rightarrow> order_row \<Rightarrow> error + pyfloat" where
  "calculate_distance_try fu warehouse_row order_row =
     bind_err (getitem (latitude warehouse_row)) (\<lambda>lat1.
     bind_err (getitem (longitude warehouse_row)) (\<lambda>lon1.
     bind_err (getitem (delivery_latitude order_row)) (\<lambda>lat2.
     bind_err (getitem (delivery_longitude order_row)) (\<lambda>lon2.
     bind_err (py_float fu lat1) (\<lambda>flat1.
     bind_err (py_float fu lon1) (\<lambda>flon1.
     bind_err (py_float fu lat2) (\<lambda>flat2.
     bind_err (py_float fu lon2) (\<lambda>flon2.
     haversine fu (radians fu flat1) (radians fu flon1) (radians fu flat2) (radians fu flon2)))))))))"

text \<open>The handler turns every exception into \<^verbatim>\<open>float('inf')\<close>.\<close>

definition calculate_distance :: "float_unit \<Rightarrow> warehouse \<Rightarrow> order_row \<Rightarrow> pyfloat" where
  "calculate_distance fu warehouse_row order_row =
     (case calculate_distance_try fu warehouse_row order_row of
        Inl e \<Rightarrow> PInf
      | Inr d \<Rightarrow> d)"

section \<open>\<^verbatim>\<open>optimize\<close>\<close>

record allocation_entry =
  entry_order_id :: string
  entry_quantity :: int
  cost :: pyfloat
  distance :: pyfloat

record unfulfilled_entry =
  uf_order_id :: string
  uf_quantity :: int
  reason :: string

text \<open>
  The \<^verbatim>\<open>results\<close> dict. The allocation plan is a Python dict from warehouse
  identifier to a list of entries; a dict keeps its keys in insertion order, so it is
  an association list here, a new key going to the end.
\<close>

type_synonym plan = "(string \<times> allocation_entry list) list"

record results =
  allocation_plan :: plan
  warehouse_utilization :: "(string \<times> pyval) list"
  unfulfilled_orders :: "unfulfilled_entry list"
  total_cost :: pyfloat
  solving_time :: pyfloat
  status :: string

definition initial_results :: results where
  "initial_results =
     \<lparr>allocation_plan = [], warehouse_utilization = [], unfulfilled_orders = [],
      total_cost = Fin 0, solving_time = Fin 0, status = ''In Progress''\<rparr>"

record best_allocation =
  best_warehouse_id :: "string option"
  best_cost :: pyfloat
  best_distance :: pyfloat

definition initial_best :: best_allocation where
  "initial_best = \<lparr>best_warehouse_id = None, best_cost = PInf, best_distance = PInf\<rparr>"

subsection \<open>Sorting the orders\<close>

text \<open>
  \<^verbatim>\<open>orders.sort_values(by=['status', 'quantity'], ascending=[True, False])\<close>: with
  more than one key pandas sorts by a stable lexicographic sort of the key columns,
  the status ascending (strings compare character by character) and the quantity
  descending. \<open>sort_key_le a b\<close> says that the keys of \<open>a\<close> do not come after
  those of \<open>b\<close>.
\<close>

definition sort_key_le :: "order_row \<Rightarrow> order_row \<Rightarrow> bool" where
  "sort_key_le a b \<longleftrightarrow>
     order_row.status a < order_row.status b \<or>
     (order_row.status a = order_row.status b \<and> quantity b \<le> quantity a)"

fun insert_row :: "order_row \<Rightarrow> order_row list \<Rightarrow> order_row list" where
  "insert_row x [] = [x]"
| "insert_row x (y # ys) =
     (if sort_key_le x y then x # y # ys else y # insert_row x ys)"

definition sort_values :: "order_row list \<Rightarrow> order_row list" where
  "sort_values orders = foldr insert_row orders []"

subsection \<open>Scoring one stock record\<close>

text \<open>
  \<^verbatim>\<open>warehouses[warehouses['warehouse_id'] == warehouse_id].iloc[0]\<close>: the first
  matching row, \<^verbatim>\<open>IndexError\<close> when no row matches.
\<close>

definition lookup_warehouse :: "warehouse list \<Rightarrow> string \<Rightarrow> error + warehouse" where
  "lookup_warehouse warehouses wid =
     (case filter (\<lambda>w. warehouse_id w = wid) warehouses of
        [] \<Rightarrow> Inl IndexError
      | w # _ \<Rightarrow> Inr w)"

text \<open>
  \<^verbatim>\<open>v * y\<close> for a cell \<open>v\<close> and a float \<open>y\<close>: a number is brought to a float and
  multiplied; anything else is a \<^verbatim>\<open>TypeError\<close>.
\<close>

fun py_times_float :: "float_unit \<Rightarrow> pyval \<Rightarrow> pyfloat \<Rightarrow> error + pyfloat" where
  "py_times_float fu (Num x) y = bind_err (to_float fu x) (\<lambda>f. Inr (py_mul fu f y))"
| "py_times_float fu _ y = Inl TypeError"

text \<open>Lines 70 to 72: the cost of serving \<open>order\<close> from \<open>warehouse\<close>.\<close>

definition allocation_cost :: "float_unit \<Rightarrow> warehouse \<Rightarrow> order_row \<Rightarrow> error + pyfloat" where
  "allocation_cost fu warehouse order =
     (let transport_cost = py_mul fu (calculate_distance fu warehouse order) (Fin 10) in
      bind_err (py_times_float fu (storage_cost warehouse) (Fin (point_one fu)))
        (\<lambda>storage_cost_penalty.
      Inr (py_add fu transport_cost storage_cost_penalty)))"

text \<open>The body of the inner loop, for one row \<open>stock_info\<close> of the product's stock.\<close>

definition consider_candidate ::
  "float_unit \<Rightarrow> warehouse list \<Rightarrow> order_row \<Rightarrow> stock_record \<Rightarrow> best_allocation
     \<Rightarrow> error + best_allocation" where
  "consider_candidate fu warehouses order stock_info best =
     (if quantity order \<le> current_stock stock_info then
        bind_err (lookup_warehouse warehouses (stock_warehouse_id stock_info)) (\<lambda>warehouse.
        bind_err (allocation_cost fu warehouse order) (\<lambda>c.
        if py_lt c (best_cost best)
        then Inr \<lparr>best_warehouse_id = Some (stock_warehouse_id stock_info), best_cost = c,
                  best_distance = calculate_distance fu warehouse order\<rparr>
        else Inr best))
      else Inr best)"

fun scan_candidates ::
  "float_unit \<Rightarrow> warehouse list \<Rightarrow> order_row \<Rightarrow> stock_record list \<Rightarrow> best_allocation
     \<Rightarrow> error + best_allocation" where
  "scan_candidates fu warehouses order [] best = Inr best"
| "scan_candidates fu warehouses order (stock_info # rest) best =
     bind_err (consider_candidate fu warehouses order stock_info best)
       (scan_candidates fu warehouses order rest)"

subsection \<open>Committing an order\<close>

text \<open>
  \<^verbatim>\<open>if warehouse_id not in plan: plan[warehouse_id] = []\<close>, then
  \<^verbatim>\<open>plan[warehouse_id].append(entry)\<close>.
\<close>

definition ensure_key :: "string \<Rightarrow> plan \<Rightarrow> plan" where
  "ensure_key wid p = (if wid \<in> set (map fst p) then p else p @ [(wid, [])])"

definition append_entry :: "string \<Rightarrow> allocation_entry \<Rightarrow> plan \<Rightarrow> plan" where
  "append_entry wid e p = map (\<lambda>(k, es). if k = wid then (k, es @ [e]) else (k, es)) p"

text \<open>
  \<^verbatim>\<open>inventory_levels.loc[inventory_mask, 'current_stock'] -= order_quantity\<close>: every
  row of the warehouse and product loses the quantity. The integers have no bound
  here; the column of the frame holds 64-bit integers, and the two agree as long as
  the difference stays in their range, as it does when the record covers an order
  quantity that is not negative.
\<close>

definition deplete :: "string \<Rightarrow> string \<Rightarrow> int \<Rightarrow> stock_record list \<Rightarrow> stock_record list" where
  "deplete wid pid q inventory_levels =
     map (\<lambda>s. if stock_warehouse_id s = wid \<and> stock_product_id s = pid
              then s\<lparr>current_stock := current_stock s - q\<rparr> else s) inventory_levels"

text \<open>
  One turn of the loop over the orders: the new \<^verbatim>\<open>results\<close> and the new contents of
  \<^verbatim>\<open>inventory_levels\<close>, or the exception.
\<close>

definition process_order ::
  "float_unit \<Rightarrow> warehouse list \<Rightarrow> order_row \<Rightarrow> results \<Rightarrow> stock_record list
     \<Rightarrow> error + results \<times> stock_record list" where
  "process_order fu warehouses order res inventory_levels =
     (let possible_inventory =
            filter (\<lambda>s. stock_product_id s = product_id order) inventory_levels in
      bind_err (scan_candidates fu warehouses order possible_inventory initial_best) (\<lambda>best.
      case best_warehouse_id best of
        Some wid \<Rightarrow>
          Inr (res\<lparr>allocation_plan :=
                      append_entry wid
                        \<lparr>entry_order_id = order_id order, entry_quantity = quantity order,
                         cost = best_cost best, distance = best_distance best\<rparr>
                        (ensure_key wid (allocation_plan res)),
                    total_cost := py_add fu (total_cost res) (best_cost best)\<rparr>,
               deplete wid (product_id order) (quantity order) inventory_levels)
      | None \<Rightarrow>
          Inr (res\<lparr>unfulfilled_orders :=
                      unfulfilled_orders res @
                        [\<lparr>uf_order_id = order_id order, uf_quantity = quantity order,
                          reason = ''Insufficient stock for product '' @ product_id order\<rparr>]\<rparr>,
               inventory_levels)))"

subsection \<open>The frames in memory\<close>

text \<open>
  The inventory is a mutable pandas frame that the caller keeps using, so the frames
  live in a store: \<open>frames h r\<close> is the contents of the frame at reference \<open>r\<close>, and
  the references below \<open>next_ref h\<close> are the ones in use. \<^verbatim>\<open>inventory.copy()\<close> makes
  a new frame with the same rows.
\<close>

record heap =
  frames :: "nat \<Rightarrow> stock_record list"
  next_ref :: nat

definition copy_frame :: "nat \<Rightarrow> heap \<Rightarrow> nat \<times> heap" where
  "copy_frame r h =
     (next_ref h, h\<lparr>frames := (frames h)(next_ref h := frames h r), next_ref := Suc (next_ref h)\<rparr>)"

text \<open>
  The loop over the sorted orders; \<open>lv\<close> is the reference of \<^verbatim>\<open>inventory_levels\<close>.
  An exception leaves the loop with the store as it is at that moment.
\<close>

fun allocation_loop ::
  "float_unit \<Rightarrow> warehouse list \<Rightarrow> nat \<Rightarrow> order_row list \<Rightarrow> results \<Rightarrow> heap
     \<Rightarrow> (error + results) \<times> heap" where
  "allocation_loop fu warehouses lv [] res h = (Inr res, h)"
| "allocation_loop fu warehouses lv (order # rest) res h =
     (case process_order fu warehouses order res (frames h lv) of
        Inl e \<Rightarrow> (Inl e, h)
      | Inr (res', levels') \<Rightarrow>
          allocation_loop fu warehouses lv rest res' (h\<lparr>frames := (frames h)(lv := levels')\<rparr>))"

text \<open>
  \<^verbatim>\<open>optimize(self, warehouses, orders, inventory)\<close>. \<open>inventory\<close> is the reference of
  the caller's frame; \<open>t_start\<close> and \<open>t_end\<close> are the two readings of
  \<^verbatim>\<open>time.time()\<close>. The result is what the call returns or raises, and the store
  when it ends. Log messages are not modelled.
\<close>

definition optimize ::
  "optimizer \<Rightarrow> float_unit \<Rightarrow> warehouse list \<Rightarrow> order_row list \<Rightarrow> nat \<Rightarrow> real \<Rightarrow> real \<Rightarrow> heap
     \<Rightarrow> (error + results) \<times> heap" where
  "optimize self fu warehouses orders inventory t_start t_end h =
     (let (inventory_levels, h1) = copy_frame inventory h;
          sorted_orders = sort_values orders
      in case allocation_loop fu warehouses inventory_levels sorted_orders initial_results h1 of
           (Inl e, h2) \<Rightarrow> (Inl (OptimizationError e), h2)
         | (Inr res, h2) \<Rightarrow>
             (Inr (res\<lparr>solving_time := py_sub fu (Fin t_end) (Fin t_start),
                       status := ''Completed''\<rparr>), h2))"

section \<open>\<^verbatim>\<open>get_optimization_summary\<close>\<close>

text \<open>
  \<^verbatim>\<open>round(v, 2)\<close>: a number is rounded to the nearest multiple of one hundredth, a
  tie going to the even one; the infinities and not-a-number round to themselves;
  anything else has no \<^verbatim>\<open>__round__\<close> and raises \<^verbatim>\<open>TypeError\<close>.
\<close>

definition round_half_even :: "real \<Rightarrow> int" where
  "round_half_even x =
     (let f = \<lfloor>x\<rfloor>; d = x - of_int f in
      if d < 1 / 2 then f else if 1 / 2 < d then f + 1 else if even f then f else f + 1)"

fun round2 :: "pyfloat \<Rightarrow> pyfloat" where
  "round2 (Fin x) = Fin (of_int (round_half_even (x * 100)) / 100)"
| "round2 x = x"

fun py_round2 :: "pyval \<Rightarrow> error + pyval" where
  "py_round2 (Num x) = Inr (Num (round2 x))"
| "py_round2 _ = Inl TypeError"

text \<open>\<^verbatim>\<open>d.get(key, default)\<close>.\<close>

definition dict_get :: "(string \<rightharpoonup> pyval) \<Rightarrow> string \<Rightarrow> pyval \<Rightarrow> pyval" where
  "dict_get d k dflt = (case d k of None \<Rightarrow> dflt | Some v \<Rightarrow> v)"

definition summary_try :: "(string \<rightharpoonup> pyval) \<Rightarrow> error + (string \<rightharpoonup> pyval)" where
  "summary_try res =
     bind_err (py_round2 (dict_get res ''total_cost'' (Num (Fin 0)))) (\<lambda>tc.
     bind_err (py_round2 (dict_get res ''solving_time'' (Num (Fin 0)))) (\<lambda>st.
     Inr [''total_cost'' \<mapsto> tc,
          ''solving_time'' \<mapsto> st,
          ''status'' \<mapsto> dict_get res ''status'' (Str ''Unknown''),
          ''timestamp'' \<mapsto> dict_get res ''optimization_timestamp'' NoneVal]))"

text \<open>The handler returns the empty dict.\<close>

definition get_optimization_summary :: "(string \<rightharpoonup> pyval) \<Rightarrow> (string \<rightharpoonup> pyval)" where
  "get_optimization_summary res =
     (case summary_try res of Inl e \<Rightarrow> Map.empty | Inr summary \<Rightarrow> summary)"

text \<open>The dict that \<^verbatim>\<open>optimize\<close> returns, as \<^verbatim>\<open>get_optimization_summary\<close> reads it.\<close>

definition results_dict :: "results \<Rightarrow> (string \<rightharpoonup> pyval)" where
  "results_dict res =
     [''allocation_plan'' \<mapsto> PyObj,
      ''warehouse_utilization'' \<mapsto> PyObj,
      ''unfulfilled_orders'' \<mapsto> PyObj,
      ''total_cost'' \<mapsto> Num (total_cost res),
      ''solving_time'' \<mapsto> Num (solving_time res),
      ''status'' \<mapsto> Str (status res)]"

section \<open>Auxiliary definitions\<close>

text \<open>
  What \<^verbatim>\<open>get_optimization_summary\<close> can round: a field that is missing, or a number.
  \<open>number_at\<close> is the number read, zero for a missing field.
\<close>

definition numeric_or_missing :: "(string \<rightharpoonup> pyval) \<Rightarrow> string \<Rightarrow> bool" where
  "numeric_or_missing res k = (case res k of None \<Rightarrow> True | Some (Num x) \<Rightarrow> True | Some _ \<Rightarrow> False)"

definition number_at :: "(string \<rightharpoonup> pyval) \<Rightarrow> string \<Rightarrow> pyfloat" where
  "number_at res k = (case res k of Some (Num x) \<Rightarrow> x | _ \<Rightarrow> Fin 0)"

text \<open>
  The loop of \<^verbatim>\<open>optimize\<close> without the store: the same turns, on the contents of
  \<^verbatim>\<open>inventory_levels\<close>. Lemma \<open>loop_fst\<close> below shows that it computes what the loop
  computes.
\<close>

fun run_orders ::
  "float_unit \<Rightarrow> warehouse list \<Rightarrow> order_row list \<Rightarrow> results \<Rightarrow> stock_record list
     \<Rightarrow> error + results \<times> stock_record list" where
  "run_orders fu warehouses [] res levels = Inr (res, levels)"
| "run_orders fu warehouses (order # rest) res levels =
     bind_err (process_order fu warehouses order res levels)
       (\<lambda>(res', levels'). run_orders fu warehouses rest res' levels')"

text \<open>An outcome of \<^verbatim>\<open>optimize\<close> with the wall-clock field \<^verbatim>\<open>solving_time\<close> blanked.\<close>

definition timeless :: "error + results \<Rightarrow> error + results" where
  "timeless r = map_sum id (\<lambda>res. res\<lparr>solving_time := Fin 0\<rparr>) r"

text \<open>
  The float unit of a machine that would not round: every operation returns the exact
  real result, \<^verbatim>\<open>float\<close> rejects every string, and \<^verbatim>\<open>math.atan2\<close> is the angle of
  the point \<open>(x, y)\<close> in \<open>(-\<pi>, \<pi>]\<close>, with the limit angles at the infinities. It
  serves to evaluate the scenarios, whose numbers (0, 1, 10, 100, 500) the floats of a
  real machine compute exactly as well.
\<close>

definition atan2_real :: "real \<Rightarrow> real \<Rightarrow> real" where
  "atan2_real y x =
     (if 0 < x then arctan (y / x)
      else if x < 0 then (if 0 \<le> y then arctan (y / x) + pi else arctan (y / x) - pi)
      else if 0 < y then pi / 2
      else if y < 0 then - (pi / 2)
      else 0)"

fun atan2_exact :: "pyfloat \<Rightarrow> pyfloat \<Rightarrow> pyfloat" where
  "atan2_exact (Fin y) (Fin x) = Fin (atan2_real y x)"
| "atan2_exact NaN _ = NaN"
| "atan2_exact _ NaN = NaN"
| "atan2_exact PInf PInf = Fin (pi / 4)"
| "atan2_exact PInf NInf = Fin (3 * pi / 4)"
| "atan2_exact NInf PInf = Fin (- (pi / 4))"
| "atan2_exact NInf NInf = Fin (- (3 * pi / 4))"
| "atan2_exact PInf (Fin x) = Fin (pi / 2)"
| "atan2_exact NInf (Fin x) = Fin (- (pi / 2))"
| "atan2_exact (Fin y) PInf = Fin 0"
| "atan2_exact (Fin y) NInf = Fin (if y < 0 then - pi else pi)"

definition exact_unit :: float_unit where
  "exact_unit =
     \<lparr>float_of_str = (\<lambda>s. None),
      float_of_number = (\<lambda>a. Inr (Fin a)),
      point_one = 1 / 10,
      add_fin = (\<lambda>a b. Fin (a + b)),
      sub_fin = (\<lambda>a b. Fin (a - b)),
      mul_fin = (\<lambda>a b. Fin (a * b)),
      half_fin = (\<lambda>a. Fin (a / 2)),
      square_fin = (\<lambda>a. Inr (Fin (a * a))),
      radians_fin = (\<lambda>a. Fin (a * pi / 180)),
      sin_fin = (\<lambda>a. Fin (sin a)),
      cos_fin = (\<lambda>a. Fin (cos a)),
      sqrt_fin = (\<lambda>a. Fin (sqrt a)),
      atan2_num = atan2_exact\<rparr>"

text \<open>
  Scenario A of the specification: warehouse W1 at (0, 0) with storage cost 100 holds
  500 units of P1, and order O1 asks for 500 units of P1 at (0, 0).
\<close>

definition W1 :: warehouse where
  "W1 = \<lparr>warehouse_id = ''W1'', latitude = Some (Num (Fin 0)), longitude = Some (Num (Fin 0)),
         storage_cost = Num (Fin 100)\<rparr>"

definition O1 :: order_row where
  "O1 = \<lparr>order_id = ''O1'', product_id = ''P1'', quantity = 500, status = ''pending'',
         delivery_latitude = Some (Num (Fin 0)), delivery_longitude = Some (Num (Fin 0))\<rparr>"

definition S1 :: stock_record where
  "S1 = \<lparr>stock_warehouse_id = ''W1'', stock_product_id = ''P1'', current_stock = 500\<rparr>"

text \<open>A store with one frame, the inventory of scenario A, at reference 0.\<close>

definition store_A :: heap where
  "store_A = \<lparr>frames = (\<lambda>r. if r = 0 then [S1] else []), next_ref = 1\<rparr>"

text \<open>All entries of an allocation plan, warehouse after warehouse.\<close>

definition plan_entries :: "plan \<Rightarrow> allocation_entry list" where
  "plan_entries p = concat (map snd p)"

text \<open>
  The two ways a turn of the loop ends, as \<^verbatim>\<open>process_order\<close> writes them: the order
  committed to warehouse \<open>wid\<close> at cost \<open>c\<close> and distance \<open>d\<close>, or recorded as
  unfulfilled.
\<close>

definition committed ::
  "float_unit \<Rightarrow> order_row \<Rightarrow> string \<Rightarrow> pyfloat \<Rightarrow> pyfloat \<Rightarrow> results \<Rightarrow> results" where
  "committed fu order wid c d res =
     res\<lparr>allocation_plan :=
           append_entry wid
             \<lparr>entry_order_id = order_id order, entry_quantity = quantity order, cost = c, distance = d\<rparr>
             (ensure_key wid (allocation_plan res)),
         total_cost := py_add fu (total_cost res) c\<rparr>"

definition unfulfilled :: "order_row \<Rightarrow> results \<Rightarrow> results" where
  "unfulfilled order res =
     res\<lparr>unfulfilled_orders :=
           unfulfilled_orders res @
             [\<lparr>uf_order_id = order_id order, uf_quantity = quantity order,
               reason = ''Insufficient stock for product '' @ product_id order\<rparr>]\<rparr>"

text \<open>
  What identifies an order in the input, in an allocation entry and in an unfulfilled
  entry: the order identifier and the quantity. \<open>unfulfilled_entry_of r\<close> is the entry
  that the loop records for an order \<open>r\<close> it cannot serve.
\<close>

definition entry_key :: "allocation_entry \<Rightarrow> string \<times> int" where
  "entry_key e = (entry_order_id e, entry_quantity e)"

definition uf_key :: "unfulfilled_entry \<Rightarrow> string \<times> int" where
  "uf_key u = (uf_order_id u, uf_quantity u)"

definition order_key :: "order_row \<Rightarrow> string \<times> int" where
  "order_key r = (order_id r, quantity r)"

definition unfulfilled_entry_of :: "order_row \<Rightarrow> unfulfilled_entry" where
  "unfulfilled_entry_of r =
     \<lparr>uf_order_id = order_id r, uf_quantity = quantity r,
      reason = ''Insufficient stock for product '' @ product_id r\<rparr>"

text \<open>Scenario D: a second order for the same product, which the stock cannot cover as well.\<close>

definition O2 :: order_row where
  "O2 = \<lparr>order_id = ''O2'', product_id = ''P1'', quantity = 100, status = ''pending'',
         delivery_latitude = Some (Num (Fin 0)), delivery_longitude = Some (Num (Fin 0))\<rparr>"

text \<open>The plan that scenario D ends with (one second on the clock).\<close>

definition plan_D :: results where
  "plan_D = \<lparr>allocation_plan =
             [(''W1'', [\<lparr>entry_order_id = ''O1'', entry_quantity = 500, cost = Fin 10, distance = Fin 0\<rparr>])],
           warehouse_utilization = [],
           unfulfilled_orders =
             [\<lparr>uf_order_id = ''O2'', uf_quantity = 100, reason = ''Insufficient stock for product P1''\<rparr>],
           total_cost = Fin 10, solving_time = Fin 1, status = ''Completed''\<rparr>"

text \<open>A warehouse other than the one the stock of scenario A names.\<close>

definition W9 :: warehouse where
  "W9 = \<lparr>warehouse_id = ''W9'', latitude = Some (Num (Fin 0)), longitude = Some (Num (Fin 0)),
         storage_cost = Num (Fin 1)\<rparr>"

text \<open>
  The quantity allocated against a warehouse and a product, read off a plan: the
  entries under the warehouse (Python's \<^verbatim>\<open>plan.get(wid, [])\<close>) whose order, found by its
  identifier among the input orders, is for the product.
\<close>

definition order_product :: "order_row list \<Rightarrow> string \<Rightarrow> string option" where
  "order_product orders oid = map_of (map (\<lambda>r. (order_id r, product_id r)) orders) oid"

definition plan_at :: "plan \<Rightarrow> string \<Rightarrow> allocation_entry list" where
  "plan_at p wid = (case map_of p wid of None \<Rightarrow> [] | Some es \<Rightarrow> es)"

definition allocated_quantity :: "order_row list \<Rightarrow> plan \<Rightarrow> string \<Rightarrow> string \<Rightarrow> int" where
  "allocated_quantity orders p wid pid =
     sum_list (map entry_quantity
       (filter (\<lambda>e. order_product orders (entry_order_id e) = Some pid) (plan_at p wid)))"

definition stock_key :: "stock_record \<Rightarrow> string \<times> string" where
  "stock_key s = (stock_warehouse_id s, stock_product_id s)"

text \<open>
  Two relations between a stock record before and after some turns of the loop:
  \<open>depleted_by\<close>, the record has lost what the plan gained for its warehouse and
  product; \<open>stays_nonneg\<close>, the record has not become negative.
\<close>

definition depleted_by :: "order_row list \<Rightarrow> plan \<Rightarrow> plan \<Rightarrow> stock_record \<Rightarrow> stock_record \<Rightarrow> bool" where
  "depleted_by orders p p' s s' \<longleftrightarrow>
     stock_key s' = stock_key s \<and>
     current_stock s' = current_stock s
       - (allocated_quantity orders p' (stock_warehouse_id s) (stock_product_id s)
          - allocated_quantity orders p (stock_warehouse_id s) (stock_product_id s))"

definition stays_nonneg :: "stock_record \<Rightarrow> stock_record \<Rightarrow> bool" where
  "stays_nonneg s s' \<longleftrightarrow> stock_key s' = stock_key s \<and> (0 \<le> current_stock s \<longrightarrow> 0 \<le> current_stock s')"

text \<open>
  What \<^verbatim>\<open>calculate_distance\<close> makes of one coordinate cell, \<^verbatim>\<open>float(row[label])\<close>: the
  float, or the exception. \<open>W_bad\<close> is the warehouse of scenario A with a latitude that
  is not a number.
\<close>

definition coordinate :: "float_unit \<Rightarrow> pyval option \<Rightarrow> error + pyfloat" where
  "coordinate fu cell = bind_err (getitem cell) (py_float fu)"


fun is_fin :: "pyfloat \<Rightarrow> bool" where
  "is_fin (Fin x) = True"
| "is_fin _ = False"





definition haversine_km :: "real \<Rightarrow> real \<Rightarrow> real \<Rightarrow> real \<Rightarrow> real" where
  "haversine_km lat1 lon1 lat2 lon2 =
     (let p1 = lat1 * pi / 180; l1 = lon1 * pi / 180; p2 = lat2 * pi / 180; l2 = lon2 * pi / 180;
          a = (sin ((p2 - p1) / 2))\<^sup>2 + cos p1 * cos p2 * (sin ((l2 - l1) / 2))\<^sup>2
      in 2 * 6371 * atan2_real (sqrt a) (sqrt (1 - a)))"




text \<open>
  Five orders that differ in status and quantity only, and a store whose one frame,
  the inventory, is empty.
\<close>

definition plain_order :: "string \<Rightarrow> string \<Rightarrow> int \<Rightarrow> order_row" where
  "plain_order i s q =
     \<lparr>order_id = i, product_id = ''P1'', quantity = q, status = s,
      delivery_latitude = None, delivery_longitude = None\<rparr>"

definition queue_E :: "order_row list" where
  "queue_E =
     [plain_order ''a'' ''pending'' 5, plain_order ''b'' ''urgent'' 1,
      plain_order ''c'' ''pending'' 7, plain_order ''d'' ''pending'' 5,
      plain_order ''e'' ''Pending'' 1]"

definition store_empty :: heap where
  "store_empty = \<lparr>frames = (\<lambda>r. []), next_ref = 1\<rparr>"




section \<open>Basic facts\<close>

lemma bind_err_simps:
  "bind_err (Inl e) f = Inl e" "bind_err (Inr x) f = f x"
  by (simp_all add: bind_err_def)

lemma exact_unit_simps [simp]:
  "float_of_str exact_unit s = None"
  "float_of_number exact_unit a = Inr (Fin a)"
  "point_one exact_unit = 1 / 10"
  "add_fin exact_unit a b = Fin (a + b)"
  "sub_fin exact_unit a b = Fin (a - b)"
  "mul_fin exact_unit a b = Fin (a * b)"
  "half_fin exact_unit a = Fin (a / 2)"
  "square_fin exact_unit a = Inr (Fin (a * a))"
  "radians_fin exact_unit a = Fin (a * pi / 180)"
  "sin_fin exact_unit a = Fin (sin a)"
  "cos_fin exact_unit a = Fin (cos a)"
  "sqrt_fin exact_unit a = Fin (sqrt a)"
  "atan2_num exact_unit = atan2_exact"
  by (simp_all add: exact_unit_def)

subsection \<open>The loop and the store\<close>

lemma loop_fst:
  "fst (allocation_loop P ws lv os res h) = map_sum id fst (run_orders P ws os res (frames h lv))"
  by (induction os arbitrary: res h) (auto simp: bind_err_def split: sum.splits)

lemma loop_frames_other:
  "r \<noteq> lv \<Longrightarrow> frames (snd (allocation_loop P ws lv os res h)) r = frames h r"
  by (induction os arbitrary: res h) (auto split: sum.splits)

lemma loop_next_ref:
  "next_ref (snd (allocation_loop P ws lv os res h)) = next_ref h"
  by (induction os arbitrary: res h) (auto split: sum.splits)

lemma loop_frames_own:
  "run_orders P ws os res (frames h lv) = Inr (res', levels')
   \<Longrightarrow> frames (snd (allocation_loop P ws lv os res h)) lv = levels'"
  by (induction os arbitrary: res h) (auto simp: bind_err_def split: sum.splits)

lemma optimize_fst:
  "fst (optimize self P ws os iv t0 t1 h) =
     (case run_orders P ws (sort_values os) initial_results (frames h iv) of
        Inl e \<Rightarrow> Inl (OptimizationError e)
      | Inr (res, levels) \<Rightarrow> Inr (res\<lparr>solving_time := py_sub P (Fin t1) (Fin t0), status := ''Completed''\<rparr>))"
proof -
  let ?h1 = "h\<lparr>frames := (frames h)(next_ref h := frames h iv), next_ref := Suc (next_ref h)\<rparr>"
  let ?L = "allocation_loop P ws (next_ref h) (sort_values os) initial_results ?h1"
  have "fst ?L = map_sum id fst (run_orders P ws (sort_values os) initial_results (frames h iv))"
    by (simp add: loop_fst)
  then show ?thesis
    by (cases ?L; cases "run_orders P ws (sort_values os) initial_results (frames h iv)")
       (auto simp: optimize_def copy_frame_def split: sum.splits)
qed

lemma optimize_snd_other:
  assumes "r \<noteq> next_ref h"
  shows "frames (snd (optimize self P ws os iv t0 t1 h)) r = frames h r"
proof -
  let ?h1 = "h\<lparr>frames := (frames h)(next_ref h := frames h iv), next_ref := Suc (next_ref h)\<rparr>"
  let ?L = "allocation_loop P ws (next_ref h) (sort_values os) initial_results ?h1"
  have "frames (snd ?L) r = frames ?h1 r"
    using assms by (rule loop_frames_other)
  then show ?thesis using assms
    by (cases ?L) (auto simp: optimize_def copy_frame_def split: sum.splits)
qed

section \<open>The caller's inventory (C6)\<close>

text \<open>
  C6. \<^verbatim>\<open>optimize\<close> never changes the caller's stock frame: the depletion goes to the
  copy made at the start, the frame at the new reference \<open>next_ref h\<close>. Whether the call
  returns or raises, the frame passed in holds the rows it held before, and so does
  every other frame that existed. A second run on the store the first one left
  therefore starts from the same rows and has the same outcome (up to the elapsed
  time).
\<close>

theorem optimize_keeps_inventory:
  assumes "inventory < next_ref h"
  shows "frames (snd (optimize self P ws os inventory t0 t1 h)) inventory = frames h inventory
       \<and> (\<forall>r. r \<noteq> next_ref h \<longrightarrow>
             frames (snd (optimize self P ws os inventory t0 t1 h)) r = frames h r)
       \<and> timeless (fst (optimize self P ws os inventory t0' t1'
                          (snd (optimize self P ws os inventory t0 t1 h))))
         = timeless (fst (optimize self P ws os inventory t0 t1 h))"
proof -
  have 1: "frames (snd (optimize self P ws os inventory t0 t1 h)) inventory = frames h inventory"
    using assms by (intro optimize_snd_other) simp
  show ?thesis
    by (simp add: 1 optimize_snd_other) (simp add: optimize_fst 1 timeless_def split: sum.splits)
qed

theorem optimize_keeps_inventory_witness:
  "(0::nat) < next_ref store_A
   \<and> frames (snd (optimize init_optimizer exact_unit [W1] [O1] 0 0 1 store_A)) 0 = [S1]"
  using optimize_keeps_inventory [of 0 store_A init_optimizer exact_unit "[W1]" "[O1]" 0 1]
  by (simp add: store_A_def)

section \<open>The solver time limit (C7)\<close>

text \<open>
  C7. The configured \<^verbatim>\<open>solver_time\<close> is not read by \<^verbatim>\<open>optimize\<close>: two runs on the
  same warehouses, orders, stock and store that differ in \<^verbatim>\<open>solver_time\<close> (and in the
  clock readings) have the same outcome, that is the same exception or the same
  allocation plan, unfulfilled list, total cost and status, and leave the same store.
  Only \<^verbatim>\<open>solving_time\<close>, the elapsed wall-clock time, can differ.
\<close>

theorem solver_time_not_enforced:
  "timeless (fst (optimize (self\<lparr>solver_time := a\<rparr>) P ws os inventory t0 t1 h))
     = timeless (fst (optimize (self\<lparr>solver_time := b\<rparr>) P ws os inventory t0' t1' h))
   \<and> snd (optimize (self\<lparr>solver_time := a\<rparr>) P ws os inventory t0 t1 h)
     = snd (optimize (self\<lparr>solver_time := b\<rparr>) P ws os inventory t0' t1' h)"
  by (simp add: optimize_def timeless_def split: prod.splits sum.splits)

section \<open>The summary (C8, C10)\<close>

lemma round_half_even_near: "\<bar>x - of_int (round_half_even x)\<bar> \<le> 1 / 2"
  unfolding round_half_even_def Let_def by (auto simp: abs_le_iff)

lemma round2_near:
  "\<exists>k::int. round2 (Fin x) = Fin (of_int k / 100) \<and> \<bar>x * 100 - of_int k\<bar> \<le> 1 / 2"
  using round_half_even_near [of "x * 100"] by auto

lemma summary_try_numeric:
  assumes "numeric_or_missing res ''total_cost''" and "numeric_or_missing res ''solving_time''"
  shows "summary_try res =
     Inr [''total_cost'' \<mapsto> Num (round2 (number_at res ''total_cost'')),
          ''solving_time'' \<mapsto> Num (round2 (number_at res ''solving_time'')),
          ''status'' \<mapsto> (case res ''status'' of None \<Rightarrow> Str ''Unknown'' | Some v \<Rightarrow> v),
          ''timestamp'' \<mapsto> (case res ''optimization_timestamp'' of None \<Rightarrow> NoneVal | Some v \<Rightarrow> v)]"
  using assms
  by (auto simp: summary_try_def numeric_or_missing_def number_at_def dict_get_def bind_err_simps
           split: option.splits pyval.splits)

lemma summary_try_fails:
  "(\<exists>e. summary_try res = Inl e) \<longleftrightarrow>
     \<not> (numeric_or_missing res ''total_cost'' \<and> numeric_or_missing res ''solving_time'')"
  by (auto simp: summary_try_def numeric_or_missing_def dict_get_def bind_err_def
           split: option.splits pyval.splits sum.splits)

text \<open>
  The summary of a plan that \<^verbatim>\<open>optimize\<close> returned: \<^verbatim>\<open>optimize\<close> never stores an
  \<^verbatim>\<open>optimization_timestamp\<close>, so the timestamp of the summary is \<^verbatim>\<open>None\<close>.
\<close>

lemma summary_of_results:
  "get_optimization_summary (results_dict r) =
     [''total_cost'' \<mapsto> Num (round2 (total_cost r)),
      ''solving_time'' \<mapsto> Num (round2 (solving_time r)),
      ''status'' \<mapsto> Str (status r),
      ''timestamp'' \<mapsto> NoneVal]"
proof -
  have "numeric_or_missing (results_dict r) ''total_cost''"
    and "numeric_or_missing (results_dict r) ''solving_time''"
    by (simp_all add: numeric_or_missing_def results_dict_def)
  from summary_try_numeric [OF this] show ?thesis
    by (simp add: get_optimization_summary_def number_at_def results_dict_def)
qed

text \<open>
  C8, as stated: every missing optional field is defaulted to zero or to
  \<^verbatim>\<open>"Unknown"\<close>, the timestamp likewise. This fails for the timestamp: on a plan without
  the key \<^verbatim>\<open>optimization_timestamp\<close> (here the empty dict) the summary's timestamp is
  \<^verbatim>\<open>None\<close>, neither zero nor \<^verbatim>\<open>"Unknown"\<close>.
\<close>

theorem summary_timestamp_counterexample:
  "get_optimization_summary Map.empty ''timestamp'' = Some NoneVal
   \<and> get_optimization_summary Map.empty ''timestamp'' \<noteq> Some (Num (Fin 0))
   \<and> get_optimization_summary Map.empty ''timestamp'' \<noteq> Some (Str ''Unknown'')"
  by (simp add: get_optimization_summary_def summary_try_def dict_get_def bind_err_simps)

text \<open>
  C8, amended. For every plan whose \<^verbatim>\<open>total_cost\<close> and \<^verbatim>\<open>solving_time\<close> are numbers
  or missing, \<^verbatim>\<open>get_optimization_summary\<close> returns the dict with exactly the four keys
  \<^verbatim>\<open>total_cost\<close>, \<^verbatim>\<open>solving_time\<close>, \<^verbatim>\<open>status\<close> and \<^verbatim>\<open>timestamp\<close>: the first two are the
  plan's numbers rounded to two decimals (a multiple of 1/100 at most half a hundredth
  away), zero when missing; the status is passed through, \<^verbatim>\<open>"Unknown"\<close> when missing;
  the timestamp is the plan's \<^verbatim>\<open>optimization_timestamp\<close>, and \<^verbatim>\<open>None\<close> when that key is
  missing. The function is a function of the plan alone and returns a new dict; it has
  no write to the plan.
\<close>

theorem summary_fields:
  assumes "numeric_or_missing res ''total_cost''" and "numeric_or_missing res ''solving_time''"
  shows "get_optimization_summary res =
          [''total_cost'' \<mapsto> Num (round2 (number_at res ''total_cost'')),
           ''solving_time'' \<mapsto> Num (round2 (number_at res ''solving_time'')),
           ''status'' \<mapsto> (case res ''status'' of None \<Rightarrow> Str ''Unknown'' | Some v \<Rightarrow> v),
           ''timestamp'' \<mapsto> (case res ''optimization_timestamp'' of None \<Rightarrow> NoneVal | Some v \<Rightarrow> v)]
      \<and> (res ''total_cost'' = None \<longrightarrow> number_at res ''total_cost'' = Fin 0)
      \<and> (res ''solving_time'' = None \<longrightarrow> number_at res ''solving_time'' = Fin 0)
      \<and> (\<forall>x. \<exists>k::int. round2 (Fin x) = Fin (of_int k / 100) \<and> \<bar>x * 100 - of_int k\<bar> \<le> 1 / 2)"
  using summary_try_numeric [OF assms] round2_near
  by (simp add: get_optimization_summary_def number_at_def)

theorem summary_fields_witness:
  "numeric_or_missing [''total_cost'' \<mapsto> Num (Fin (1234 / 1000))] ''total_cost''
   \<and> numeric_or_missing [''total_cost'' \<mapsto> Num (Fin (1234 / 1000))] ''solving_time''
   \<and> get_optimization_summary [''total_cost'' \<mapsto> Num (Fin (1234 / 1000))] =
          [''total_cost'' \<mapsto> Num (Fin (123 / 100)),
           ''solving_time'' \<mapsto> Num (Fin 0),
           ''status'' \<mapsto> Str ''Unknown'',
           ''timestamp'' \<mapsto> NoneVal]"
proof -
  have a: "numeric_or_missing [''total_cost'' \<mapsto> Num (Fin (1234 / 1000))] ''total_cost''"
    and b: "numeric_or_missing [''total_cost'' \<mapsto> Num (Fin (1234 / 1000))] ''solving_time''"
    by (simp_all add: numeric_or_missing_def)
  have f: "\<lfloor>617 / 5 :: real\<rfloor> = 123" by linarith
  show ?thesis
    using summary_fields [OF a b] a b
    by (simp add: number_at_def round_half_even_def f)
qed

text \<open>
  C10. \<^verbatim>\<open>get_optimization_summary\<close> returns a dict on every input. Whenever the body of
  its \<^verbatim>\<open>try\<close> raises, which is exactly when \<^verbatim>\<open>total_cost\<close> or \<^verbatim>\<open>solving_time\<close> is
  present and not a number, the result is the empty dict; and the empty dict is
  returned in no other case.
\<close>

theorem summary_never_raises:
  "(\<forall>e. summary_try res = Inl e \<longrightarrow> get_optimization_summary res = Map.empty)
   \<and> ((\<exists>e. summary_try res = Inl e) \<longleftrightarrow>
        \<not> (numeric_or_missing res ''total_cost'' \<and> numeric_or_missing res ''solving_time''))
   \<and> (get_optimization_summary res = Map.empty \<longleftrightarrow> (\<exists>e. summary_try res = Inl e))"
proof -
  have "get_optimization_summary res \<noteq> Map.empty" if "summary_try res = Inr s" for s
  proof -
    have "get_optimization_summary res ''timestamp'' \<noteq> None"
      using that
      by (auto simp: get_optimization_summary_def summary_try_def bind_err_def split: sum.splits)
    then show ?thesis by auto
  qed
  then show ?thesis
    using summary_try_fails [of res]
    by (cases "summary_try res") (auto simp: get_optimization_summary_def)
qed

theorem summary_never_raises_witness:
  "summary_try [''total_cost'' \<mapsto> Str ''abc''] = Inl TypeError
   \<and> get_optimization_summary [''total_cost'' \<mapsto> Str ''abc''] = Map.empty"
  using summary_never_raises [of "[''total_cost'' \<mapsto> Str ''abc'']"]
  by (simp add: summary_try_def dict_get_def bind_err_simps)

section \<open>The order of processing (C4)\<close>

lemma sort_key_le_total: "sort_key_le a b \<or> sort_key_le b a"
  by (auto simp: sort_key_le_def)

lemma sort_key_le_trans: "sort_key_le a b \<Longrightarrow> sort_key_le b c \<Longrightarrow> sort_key_le a c"
  by (auto simp: sort_key_le_def)

lemma mset_insert_row: "mset (insert_row x ys) = add_mset x (mset ys)"
  by (induction ys) auto

lemma set_insert_row: "set (insert_row x ys) = insert x (set ys)"
  by (induction ys) auto

lemma sorted_insert_row:
  "sorted_wrt sort_key_le ys \<Longrightarrow> sorted_wrt sort_key_le (insert_row x ys)"
proof (induction ys)
  case Nil
  then show ?case by simp
next
  case (Cons y ys)
  show ?case
  proof (cases "sort_key_le x y")
    case True
    with Cons.prems show ?thesis by (auto intro: sort_key_le_trans)
  next
    case False
    then have "sort_key_le y x" using sort_key_le_total by blast
    with False Cons show ?thesis by (auto simp: set_insert_row)
  qed
qed

text \<open>A row is put in front of the rows with its own keys that are already there.\<close>

lemma filter_insert_row:
  "filter (\<lambda>r. order_row.status r = s \<and> quantity r = q) (insert_row x ys) =
     (if order_row.status x = s \<and> quantity x = q then [x] else []) @
     filter (\<lambda>r. order_row.status r = s \<and> quantity r = q) ys"
  by (induction ys) (auto simp: sort_key_le_def)

lemma mset_sort_values: "mset (sort_values os) = mset os"
  unfolding sort_values_def by (induction os) (simp_all add: mset_insert_row)

lemma set_sort_values: "set (sort_values os) = set os"
  using mset_sort_values [of os] by (metis set_mset_mset)

lemma sorted_sort_values: "sorted_wrt sort_key_le (sort_values os)"
  unfolding sort_values_def by (induction os) (simp_all add: sorted_insert_row)

lemma stable_sort_values:
  "filter (\<lambda>r. order_row.status r = s \<and> quantity r = q) (sort_values os) =
   filter (\<lambda>r. order_row.status r = s \<and> quantity r = q) os"
  unfolding sort_values_def by (induction os) (simp_all add: filter_insert_row)

lemma process_order_no_stock:
  "process_order P ws r res [] = Inr (unfulfilled r res, [])"
  by (simp add: process_order_def bind_err_simps initial_best_def unfulfilled_def)

lemma run_orders_no_stock:
  "run_orders P ws os res [] =
     Inr (res\<lparr>unfulfilled_orders := unfulfilled_orders res @ map unfulfilled_entry_of os\<rparr>, [])"
  by (induction os arbitrary: res)
     (simp_all add: process_order_no_stock bind_err_simps unfulfilled_def unfulfilled_entry_of_def)

lemma optimize_no_stock:
  assumes "frames h iv = []"
  shows "\<exists>res. fst (optimize self P ws orders iv t0 t1 h) = Inr res \<and> allocation_plan res = []
           \<and> unfulfilled_orders res = map unfulfilled_entry_of (sort_values orders)"
  by (simp add: optimize_fst assms run_orders_no_stock initial_results_def)

lemma sort_key_le_keys:
  "sort_key_le =
     (\<lambda>a b. order_row.status a < order_row.status b
            \<or> (order_row.status a = order_row.status b \<and> quantity b \<le> quantity a))"
  by (intro ext) (simp add: sort_key_le_def)

text \<open>
  C4. \<^verbatim>\<open>optimize\<close> runs the turns of its loop over \<open>sort_values orders\<close>, one order
  after the other. That sequence is a rearrangement of the input orders. It is sorted
  by the two keys: of two orders in it, the earlier one has the smaller status, or
  the same status and a quantity at least as large. And the sort is stable: the
  orders with the same status and the same quantity stand in it in their input order.
  The sequence shows in the result: when the inventory is empty, every order is
  recorded as unfulfilled, in this order.
\<close>

theorem optimize_processing_order:
  "fst (optimize self P ws orders iv t0 t1 h) =
     (case run_orders P ws (sort_values orders) initial_results (frames h iv) of
        Inl e \<Rightarrow> Inl (OptimizationError e)
      | Inr (res, levels) \<Rightarrow>
          Inr (res\<lparr>solving_time := py_sub P (Fin t1) (Fin t0), status := ''Completed''\<rparr>))
   \<and> mset (sort_values orders) = mset orders
   \<and> sorted_wrt (\<lambda>a b. order_row.status a < order_row.status b
                     \<or> (order_row.status a = order_row.status b \<and> quantity b \<le> quantity a))
        (sort_values orders)
   \<and> (\<forall>s q. filter (\<lambda>r. order_row.status r = s \<and> quantity r = q) (sort_values orders) =
             filter (\<lambda>r. order_row.status r = s \<and> quantity r = q) orders)
   \<and> (frames h iv = [] \<longrightarrow>
        (\<exists>res. fst (optimize self P ws orders iv t0 t1 h) = Inr res \<and> allocation_plan res = []
           \<and> unfulfilled_orders res = map unfulfilled_entry_of (sort_values orders)))"
  using sorted_sort_values [of orders, unfolded sort_key_le_keys] optimize_no_stock [of h iv self P ws orders t0 t1]
  by (simp add: optimize_fst mset_sort_values stable_sort_values)

lemma sort_queue_E:
  "sort_values queue_E =
     [plain_order ''e'' ''Pending'' 1, plain_order ''c'' ''pending'' 7,
      plain_order ''a'' ''pending'' 5, plain_order ''d'' ''pending'' 5,
      plain_order ''b'' ''urgent'' 1]"
  by (simp add: queue_E_def sort_values_def sort_key_le_def plain_order_def less_char_def)

theorem optimize_processing_order_witness:
  "frames store_empty 0 = []
   \<and> map order_id (sort_values queue_E) = [''e'', ''c'', ''a'', ''d'', ''b'']
   \<and> map_sum id (\<lambda>res. map uf_order_id (unfulfilled_orders res))
        (fst (optimize init_optimizer exact_unit [] queue_E 0 0 1 store_empty))
       = Inr [''e'', ''c'', ''a'', ''d'', ''b'']"
proof -
  have e: "frames store_empty 0 = []" by (simp add: store_empty_def)
  have ids: "map order_id (sort_values queue_E) = [''e'', ''c'', ''a'', ''d'', ''b'']"
    by (simp add: sort_queue_E plain_order_def)
  have "map uf_order_id (map unfulfilled_entry_of (sort_values queue_E)) = map order_id (sort_values queue_E)"
    by (simp add: unfulfilled_entry_of_def comp_def)
  with ids have u: "map uf_order_id (map unfulfilled_entry_of (sort_values queue_E)) = [''e'', ''c'', ''a'', ''d'', ''b'']"
    by simp
  from optimize_processing_order [of init_optimizer exact_unit "[]" queue_E 0 0 1 store_empty] e
  obtain res where "fst (optimize init_optimizer exact_unit [] queue_E 0 0 1 store_empty) = Inr res"
    "unfulfilled_orders res = map unfulfilled_entry_of (sort_values queue_E)"
    by blast
  with e ids u show ?thesis by simp
qed

section \<open>One turn of the loop\<close>

lemma map_fst_append_entry: "map fst (append_entry w e p) = map fst p"
  by (induction p) (auto simp: append_entry_def)

lemma append_entry_absent:
  "w \<notin> set (map fst p) \<Longrightarrow> append_entry w e p = p"
  by (induction p) (auto simp: append_entry_def)

lemma entries_append_entry:
  "distinct (map fst p) \<Longrightarrow> w \<in> set (map fst p)
   \<Longrightarrow> mset (plan_entries (append_entry w e p)) = add_mset e (mset (plan_entries p))"
proof (induction p)
  case Nil
  then show ?case by simp
next
  case (Cons kv p)
  obtain k es where kv: "kv = (k, es)" by (cases kv)
  show ?case
  proof (cases "k = w")
    case True
    with Cons.prems kv have "w \<notin> set (map fst p)" by auto
    then have "append_entry w e p = p" by (rule append_entry_absent)
    then have "append_entry w e (kv # p) = (k, es @ [e]) # p"
      using True kv by (simp add: append_entry_def)
    then show ?thesis by (simp add: plan_entries_def kv)
  next
    case False
    with Cons kv have "mset (plan_entries (append_entry w e p)) = add_mset e (mset (plan_entries p))"
      by auto
    moreover have "append_entry w e (kv # p) = kv # append_entry w e p"
      using False kv by (simp add: append_entry_def)
    ultimately show ?thesis by (simp add: plan_entries_def)
  qed
qed

lemma ensure_key_props:
  "distinct (map fst p) \<Longrightarrow> distinct (map fst (ensure_key w p))"
  "w \<in> set (map fst (ensure_key w p))"
  "plan_entries (ensure_key w p) = plan_entries p"
  by (auto simp: ensure_key_def plan_entries_def)

lemma commit_entries:
  assumes "distinct (map fst p)"
  shows "mset (plan_entries (append_entry w e (ensure_key w p))) = add_mset e (mset (plan_entries p))"
    and "distinct (map fst (append_entry w e (ensure_key w p)))"
proof -
  have "distinct (map fst (ensure_key w p))" using assms by (rule ensure_key_props)
  then show "mset (plan_entries (append_entry w e (ensure_key w p))) = add_mset e (mset (plan_entries p))"
    using entries_append_entry [of "ensure_key w p" w e] ensure_key_props(2) [of w p]
    by (simp only: ensure_key_props(3))
  show "distinct (map fst (append_entry w e (ensure_key w p)))"
    using assms by (simp only: map_fst_append_entry ensure_key_props)
qed

lemma process_order_cases:
  assumes "process_order P ws order res levels = Inr (res', levels')"
  obtains (commit) wid c d where
      "scan_candidates P ws order (filter (\<lambda>s. stock_product_id s = product_id order) levels) initial_best
         = Inr \<lparr>best_warehouse_id = Some wid, best_cost = c, best_distance = d\<rparr>"
      "res' = committed P order wid c d res"
      "levels' = deplete wid (product_id order) (quantity order) levels"
  | (unfulfilled) b where
      "scan_candidates P ws order (filter (\<lambda>s. stock_product_id s = product_id order) levels) initial_best
         = Inr b" "best_warehouse_id b = None"
      "res' = unfulfilled order res" "levels' = levels"
proof -
  let ?scan = "scan_candidates P ws order (filter (\<lambda>s. stock_product_id s = product_id order) levels) initial_best"
  from assms obtain b where b: "?scan = Inr b"
    by (cases ?scan) (auto simp: process_order_def bind_err_simps)
  show thesis
  proof (cases "best_warehouse_id b")
    case None
    with assms b show ?thesis
      by (intro unfulfilled [of b]) (auto simp: process_order_def bind_err_simps unfulfilled_def)
  next
    case (Some wid)
    have "b = \<lparr>best_warehouse_id = Some wid, best_cost = best_cost b, best_distance = best_distance b\<rparr>"
      using Some by simp
    with assms b Some show ?thesis
      by (intro commit [of wid "best_cost b" "best_distance b"])
         (auto simp: process_order_def bind_err_simps committed_def)
  qed
qed

section \<open>The plan partitions the orders (C3)\<close>

lemma process_order_partition:
  assumes "process_order P ws r res levels = Inr (res', levels')"
    and "distinct (map fst (allocation_plan res))"
  shows "distinct (map fst (allocation_plan res'))
    \<and> mset (map entry_key (plan_entries (allocation_plan res'))) + mset (map uf_key (unfulfilled_orders res'))
       = add_mset (order_key r) (mset (map entry_key (plan_entries (allocation_plan res)))
           + mset (map uf_key (unfulfilled_orders res)))
    \<and> set (unfulfilled_orders res') \<subseteq> insert (unfulfilled_entry_of r) (set (unfulfilled_orders res))"
  using assms(1)
proof (cases rule: process_order_cases)
  case (commit wid c d)
  let ?e = "\<lparr>entry_order_id = order_id r, entry_quantity = quantity r, cost = c, distance = d\<rparr>"
  have p: "allocation_plan res' = append_entry wid ?e (ensure_key wid (allocation_plan res))"
    and u: "unfulfilled_orders res' = unfulfilled_orders res"
    using commit by (simp_all add: committed_def)
  have 1: "distinct (map fst (allocation_plan res'))"
    unfolding p using assms(2) by (rule commit_entries)
  have "mset (plan_entries (allocation_plan res')) = add_mset ?e (mset (plan_entries (allocation_plan res)))"
    unfolding p using assms(2) by (rule commit_entries)
  then have "mset (map entry_key (plan_entries (allocation_plan res')))
      = add_mset (entry_key ?e) (mset (map entry_key (plan_entries (allocation_plan res))))"
    by (metis image_mset_add_mset mset_map)
  then have 2: "mset (map entry_key (plan_entries (allocation_plan res'))) + mset (map uf_key (unfulfilled_orders res'))
       = add_mset (order_key r) (mset (map entry_key (plan_entries (allocation_plan res)))
           + mset (map uf_key (unfulfilled_orders res)))"
    by (simp add: u entry_key_def order_key_def)
  show ?thesis using 1 2 u by auto
next
  case (unfulfilled b)
  have p: "allocation_plan res' = allocation_plan res"
    and u: "unfulfilled_orders res' = unfulfilled_orders res @ [unfulfilled_entry_of r]"
    using unfulfilled by (simp_all add: unfulfilled_def unfulfilled_entry_of_def)
  show ?thesis using assms(2)
    by (simp add: p u uf_key_def order_key_def unfulfilled_entry_of_def)
qed

lemma run_orders_partition:
  assumes "run_orders P ws os res levels = Inr (res', levels')"
    and "distinct (map fst (allocation_plan res))"
  shows "distinct (map fst (allocation_plan res'))
    \<and> mset (map entry_key (plan_entries (allocation_plan res'))) + mset (map uf_key (unfulfilled_orders res'))
       = mset (map entry_key (plan_entries (allocation_plan res)))
           + mset (map uf_key (unfulfilled_orders res)) + mset (map order_key os)
    \<and> set (unfulfilled_orders res') \<subseteq> set (unfulfilled_orders res) \<union> unfulfilled_entry_of ` set os"
  using assms
proof (induction os arbitrary: res levels)
  case Nil
  then show ?case by simp
next
  case (Cons r os)
  from Cons.prems(1) obtain res1 levels1 where
    step: "process_order P ws r res levels = Inr (res1, levels1)"
    and rest: "run_orders P ws os res1 levels1 = Inr (res', levels')"
    by (cases "process_order P ws r res levels") (auto simp: bind_err_simps)
  note s = process_order_partition [OF step Cons.prems(2)]
  from s have d1: "distinct (map fst (allocation_plan res1))" by simp
  from Cons.IH [OF rest d1] s show ?case
    by (auto simp: ac_simps)
qed

lemma optimize_success:
  assumes "fst (optimize self P ws orders iv t0 t1 h) = Inr res"
  obtains res0 levels where
    "run_orders P ws (sort_values orders) initial_results (frames h iv) = Inr (res0, levels)"
    "res = res0\<lparr>solving_time := py_sub P (Fin t1) (Fin t0), status := ''Completed''\<rparr>"
  using assms unfolding optimize_fst
  by (cases "run_orders P ws (sort_values orders) initial_results (frames h iv)") auto

text \<open>
  C3. After a successful run every input order stands in exactly one place: the
  allocation entries of all warehouses together with the unfulfilled entries are, by
  order identifier and quantity, a rearrangement of the input orders. So when the
  order identifiers are distinct, no identifier occurs twice among the entries and
  the unfulfilled entries. Every unfulfilled entry is that of an input order and
  carries the reason "Insufficient stock for product" followed by the order's product
  identifier.
\<close>

theorem optimize_partitions_orders:
  assumes "fst (optimize self P ws orders iv t0 t1 h) = Inr res"
  shows "mset (map entry_key (plan_entries (allocation_plan res)))
           + mset (map uf_key (unfulfilled_orders res)) = mset (map order_key orders)
       \<and> (\<forall>u\<in>set (unfulfilled_orders res). \<exists>r\<in>set orders.
             u = \<lparr>uf_order_id = order_id r, uf_quantity = quantity r,
                  reason = ''Insufficient stock for product '' @ product_id r\<rparr>)
       \<and> distinct (map fst (allocation_plan res))
       \<and> (distinct (map order_id orders) \<longrightarrow>
             distinct (map entry_order_id (plan_entries (allocation_plan res))
                       @ map uf_order_id (unfulfilled_orders res)))"
proof -
  from assms obtain res0 levels where
    run: "run_orders P ws (sort_values orders) initial_results (frames h iv) = Inr (res0, levels)"
    and res: "res = res0\<lparr>solving_time := py_sub P (Fin t1) (Fin t0), status := ''Completed''\<rparr>"
    by (rule optimize_success)
  have "distinct (map fst (allocation_plan initial_results))"
    by (simp add: initial_results_def)
  from run_orders_partition [OF run this]
  have d: "distinct (map fst (allocation_plan res))"
    and m: "mset (map entry_key (plan_entries (allocation_plan res)))
           + mset (map uf_key (unfulfilled_orders res)) = mset (map order_key (sort_values orders))"
    and u: "set (unfulfilled_orders res) \<subseteq> unfulfilled_entry_of ` set (sort_values orders)"
    by (simp_all add: res initial_results_def plan_entries_def)
  have m': "mset (map entry_key (plan_entries (allocation_plan res)))
           + mset (map uf_key (unfulfilled_orders res)) = mset (map order_key orders)"
    using m mset_sort_values [of orders] by (metis mset_map)
  have "image_mset fst (mset (map entry_key (plan_entries (allocation_plan res)))
           + mset (map uf_key (unfulfilled_orders res))) = image_mset fst (mset (map order_key orders))"
    using m' by simp
  then have ids: "mset (map entry_order_id (plan_entries (allocation_plan res))
                       @ map uf_order_id (unfulfilled_orders res)) = mset (map order_id orders)"
    by (simp add: multiset.map_comp comp_def entry_key_def uf_key_def order_key_def)
  have "distinct (map entry_order_id (plan_entries (allocation_plan res))
                       @ map uf_order_id (unfulfilled_orders res))" if "distinct (map order_id orders)"
    using ids that by (metis mset_eq_imp_distinct_iff)
  moreover have "\<exists>r\<in>set orders. u' = unfulfilled_entry_of r" if "u' \<in> set (unfulfilled_orders res)" for u'
    using u that set_sort_values [of orders] by auto
  ultimately show ?thesis using m' d
    by (auto simp: unfulfilled_entry_of_def)
qed

section \<open>The scenarios, evaluated\<close>

lemma distance_W1_O1: "calculate_distance exact_unit W1 O1 = Fin 0"
  by (simp add: calculate_distance_def calculate_distance_try_def W1_def O1_def bind_err_simps
        haversine_def atan2_real_def exact_unit_simps py_atan2_def)

lemma distance_W1_O2: "calculate_distance exact_unit W1 O2 = Fin 0"
  by (simp add: calculate_distance_def calculate_distance_try_def W1_def O2_def bind_err_simps
        haversine_def atan2_real_def exact_unit_simps py_atan2_def)

lemma cost_W1: "allocation_cost exact_unit W1 O1 = Inr (Fin 10)" "allocation_cost exact_unit W1 O2 = Inr (Fin 10)"
  by (simp_all add: allocation_cost_def distance_W1_O1 distance_W1_O2) (simp_all add: W1_def bind_err_simps exact_unit_simps)

lemma lookup_W1: "lookup_warehouse [W1] ''W1'' = Inr W1"
  by (simp add: lookup_warehouse_def W1_def)

lemma sort_O1_O2: "sort_values [O2, O1] = [O1, O2]" "sort_values [O1] = [O1]"
  by (simp_all add: sort_values_def sort_key_le_def O1_def O2_def)

lemma process_O1:
  "process_order exact_unit [W1] O1 initial_results [S1] =
     Inr (initial_results\<lparr>allocation_plan :=
             [(''W1'', [\<lparr>entry_order_id = ''O1'', entry_quantity = 500, cost = Fin 10, distance = Fin 0\<rparr>])],
             total_cost := Fin 10\<rparr>,
          [S1\<lparr>current_stock := 0\<rparr>])"
proof -
  have "consider_candidate exact_unit [W1] O1 S1 initial_best =
      Inr \<lparr>best_warehouse_id = Some ''W1'', best_cost = Fin 10, best_distance = Fin 0\<rparr>"
    by (simp add: consider_candidate_def S1_def lookup_W1 bind_err_simps cost_W1 distance_W1_O1 initial_best_def)
       (simp add: O1_def)
  then have "scan_candidates exact_unit [W1] O1 [S1] initial_best =
      Inr \<lparr>best_warehouse_id = Some ''W1'', best_cost = Fin 10, best_distance = Fin 0\<rparr>"
    by (simp add: bind_err_simps)
  moreover have "filter (\<lambda>s. stock_product_id s = product_id O1) [S1] = [S1]"
    by (simp add: S1_def O1_def)
  ultimately show ?thesis
    by (simp add: process_order_def bind_err_simps ensure_key_def append_entry_def deplete_def
          initial_results_def)
       (simp add: S1_def O1_def)
qed

lemma process_O2:
  "process_order exact_unit [W1] O2 res [S1\<lparr>current_stock := 0\<rparr>] =
     Inr (res\<lparr>unfulfilled_orders := unfulfilled_orders res @
               [\<lparr>uf_order_id = ''O2'', uf_quantity = 100,
                 reason = ''Insufficient stock for product P1''\<rparr>]\<rparr>,
          [S1\<lparr>current_stock := 0\<rparr>])"
proof -
  have "consider_candidate exact_unit [W1] O2 (S1\<lparr>current_stock := 0\<rparr>) initial_best = Inr initial_best"
    by (simp add: consider_candidate_def O2_def)
  then have "scan_candidates exact_unit [W1] O2 [S1\<lparr>current_stock := 0\<rparr>] initial_best = Inr initial_best"
    by (simp add: bind_err_simps)
  moreover have "filter (\<lambda>s. stock_product_id s = product_id O2) [S1\<lparr>current_stock := 0\<rparr>]
       = [S1\<lparr>current_stock := 0\<rparr>]"
    by (simp add: S1_def O2_def)
  ultimately show ?thesis
    by (simp add: process_order_def bind_err_simps initial_best_def) (simp add: O2_def)
qed

lemma run_D:
  "run_orders exact_unit [W1] [O1, O2] initial_results [S1] =
     Inr (plan_D\<lparr>solving_time := Fin 0, status := ''In Progress''\<rparr>, [S1\<lparr>current_stock := 0\<rparr>])"
  by (simp add: process_O1 process_O2 bind_err_simps) (simp add: plan_D_def initial_results_def)

lemma optimize_D:
  "fst (optimize self exact_unit [W1] [O2, O1] 0 0 1 store_A) = Inr plan_D"
proof -
  have "frames store_A 0 = [S1]" by (simp add: store_A_def)
  show ?thesis unfolding optimize_fst sort_O1_O2 \<open>frames store_A 0 = [S1]\<close> run_D
    by (simp add: plan_D_def)
qed

lemma optimize_working_copy:
  assumes "run_orders P ws (sort_values os) initial_results (frames h iv) = Inr (res, levels)"
  shows "frames (snd (optimize self P ws os iv t0 t1 h)) (next_ref h) = levels"
proof -
  let ?h1 = "h\<lparr>frames := (frames h)(next_ref h := frames h iv), next_ref := Suc (next_ref h)\<rparr>"
  let ?L = "allocation_loop P ws (next_ref h) (sort_values os) initial_results ?h1"
  have "run_orders P ws (sort_values os) initial_results (frames ?h1 (next_ref h)) = Inr (res, levels)"
    using assms by simp
  then have "frames (snd ?L) (next_ref h) = levels"
    by (rule loop_frames_own)
  then show ?thesis
    by (cases ?L) (auto simp: optimize_def copy_frame_def split: sum.splits)
qed

lemma working_copy_D:
  "frames (snd (optimize self exact_unit [W1] [O2, O1] 0 0 1 store_A)) (next_ref store_A) = [S1\<lparr>current_stock := 0\<rparr>]"
proof -
  have "frames store_A 0 = [S1]" by (simp add: store_A_def)
  then have "run_orders exact_unit [W1] (sort_values [O2, O1]) initial_results (frames store_A 0)
     = Inr (plan_D\<lparr>solving_time := Fin 0, status := ''In Progress''\<rparr>, [S1\<lparr>current_stock := 0\<rparr>])"
    using run_D by (simp only: sort_O1_O2)
  then show ?thesis by (rule optimize_working_copy)
qed

theorem optimize_partitions_orders_witness:
  "fst (optimize init_optimizer exact_unit [W1] [O2, O1] 0 0 1 store_A) = Inr plan_D
   \<and> mset (map entry_key (plan_entries (allocation_plan plan_D)))
       + mset (map uf_key (unfulfilled_orders plan_D)) = mset (map order_key [O2, O1])
   \<and> map entry_key (plan_entries (allocation_plan plan_D)) = [(''O1'', 500)]
   \<and> unfulfilled_orders plan_D =
        [\<lparr>uf_order_id = ''O2'', uf_quantity = 100, reason = ''Insufficient stock for product P1''\<rparr>]"
  using optimize_partitions_orders [OF optimize_D [of init_optimizer]]
  by (simp add: optimize_D) (simp add: plan_D_def plan_entries_def entry_key_def)

section \<open>A stock record of an unknown warehouse (C9)\<close>

lemma lookup_warehouse_Inr:
  "lookup_warehouse ws wid = Inr w \<Longrightarrow> w \<in> set ws \<and> warehouse_id w = wid"
  unfolding lookup_warehouse_def
  by (cases "filter (\<lambda>w. warehouse_id w = wid) ws")
     (auto dest: filter_eq_ConsD)

lemma lookup_warehouse_unknown:
  "\<forall>w\<in>set ws. warehouse_id w \<noteq> wid \<Longrightarrow> lookup_warehouse ws wid = Inl IndexError"
  unfolding lookup_warehouse_def
  by (cases "filter (\<lambda>w. warehouse_id w = wid) ws") (auto simp: filter_empty_conv dest: filter_eq_ConsD)

lemma consider_unknown_warehouse:
  assumes "quantity r \<le> current_stock s" and "\<forall>w\<in>set ws. warehouse_id w \<noteq> stock_warehouse_id s"
  shows "consider_candidate P ws r s best = Inl IndexError"
  using assms by (simp add: consider_candidate_def lookup_warehouse_unknown bind_err_simps)

lemma scan_unknown_warehouse:
  assumes "s \<in> set cands" and "quantity r \<le> current_stock s"
    and "\<forall>w\<in>set ws. warehouse_id w \<noteq> stock_warehouse_id s"
  shows "\<exists>e. scan_candidates P ws r cands best = Inl e"
  using assms(1)
proof (induction cands arbitrary: best)
  case Nil
  then show ?case by simp
next
  case (Cons c cands)
  show ?case
  proof (cases "consider_candidate P ws r c best")
    case (Inl e)
    then show ?thesis by (simp add: bind_err_simps)
  next
    case (Inr b)
    have "c \<noteq> s" using Inr consider_unknown_warehouse [OF assms(2,3), of P best] by auto
    with Cons.prems have "s \<in> set cands" by simp
    from Cons.IH [OF this] Inr show ?thesis by (simp add: bind_err_simps)
  qed
qed

lemma process_unknown_warehouse:
  assumes "s \<in> set levels" and "stock_product_id s = product_id r"
    and "quantity r \<le> current_stock s"
    and "\<forall>w\<in>set ws. warehouse_id w \<noteq> stock_warehouse_id s"
  shows "\<exists>e. process_order P ws r res levels = Inl e"
proof -
  have "s \<in> set (filter (\<lambda>s. stock_product_id s = product_id r) levels)"
    using assms(1,2) by simp
  from scan_unknown_warehouse [OF this assms(3,4)]
  obtain e where "scan_candidates P ws r (filter (\<lambda>s. stock_product_id s = product_id r) levels) initial_best = Inl e"
    by blast
  then show ?thesis by (simp add: process_order_def bind_err_simps)
qed

text \<open>Where the warehouse of the best allocation comes from.\<close>

lemma consider_origin:
  assumes "consider_candidate P ws r s best = Inr best'"
  shows "best' = best \<or>
         (best_warehouse_id best' = Some (stock_warehouse_id s) \<and> quantity r \<le> current_stock s
          \<and> (\<exists>w. lookup_warehouse ws (stock_warehouse_id s) = Inr w))"
  using assms
  by (auto simp: consider_candidate_def bind_err_def split: if_splits sum.splits)

lemma scan_origin:
  assumes "scan_candidates P ws r cands best = Inr best'"
    and "best_warehouse_id best' = Some wid"
  shows "best_warehouse_id best = Some wid \<or>
         (\<exists>s\<in>set cands. stock_warehouse_id s = wid \<and> quantity r \<le> current_stock s
            \<and> (\<exists>w. lookup_warehouse ws wid = Inr w))"
  using assms
proof (induction cands arbitrary: best)
  case Nil
  then show ?case by simp
next
  case (Cons c cands)
  from Cons.prems(1) obtain b where
    c: "consider_candidate P ws r c best = Inr b" and rest: "scan_candidates P ws r cands b = Inr best'"
    by (cases "consider_candidate P ws r c best") (auto simp: bind_err_simps)
  from Cons.IH [OF rest Cons.prems(2)] consider_origin [OF c] show ?case
    by auto
qed

lemma commit_origin:
  assumes "scan_candidates P ws r (filter (\<lambda>s. stock_product_id s = product_id r) levels) initial_best
             = Inr \<lparr>best_warehouse_id = Some wid, best_cost = c, best_distance = d\<rparr>"
  shows "\<exists>s\<in>set levels. stock_warehouse_id s = wid \<and> stock_product_id s = product_id r
            \<and> quantity r \<le> current_stock s \<and> (\<exists>w. lookup_warehouse ws wid = Inr w)"
  using scan_origin [OF assms, of wid] by (auto simp: initial_best_def)

lemma deplete_other:
  "s \<in> set levels \<Longrightarrow> stock_warehouse_id s \<noteq> wid \<Longrightarrow> s \<in> set (deplete wid pid q levels)"
  by (force simp: deplete_def)

lemma process_keeps_unknown:
  assumes "process_order P ws r res levels = Inr (res', levels')"
    and "s \<in> set levels" and "\<forall>w\<in>set ws. warehouse_id w \<noteq> stock_warehouse_id s"
  shows "s \<in> set levels'"
  using assms(1)
proof (cases rule: process_order_cases)
  case (commit wid c d)
  from commit_origin [OF commit(1)] obtain w where "lookup_warehouse ws wid = Inr w" by blast
  then have "w \<in> set ws" "warehouse_id w = wid" by (auto dest: lookup_warehouse_Inr)
  with assms(3) have "stock_warehouse_id s \<noteq> wid" by auto
  with assms(2) commit(3) show ?thesis by (simp add: deplete_other)
next
  case (unfulfilled b)
  with assms(2) show ?thesis by simp
qed

lemma run_unknown_warehouse:
  assumes "r \<in> set os" and "s \<in> set levels" and "stock_product_id s = product_id r"
    and "quantity r \<le> current_stock s"
    and "\<forall>w\<in>set ws. warehouse_id w \<noteq> stock_warehouse_id s"
  shows "\<exists>e. run_orders P ws os res levels = Inl e"
  using assms(1,2)
proof (induction os arbitrary: res levels)
  case Nil
  then show ?case by simp
next
  case (Cons x os)
  show ?case
  proof (cases "process_order P ws x res levels")
    case (Inl e)
    then show ?thesis by (simp add: bind_err_simps)
  next
    case (Inr p)
    obtain res1 levels1 where p: "p = (res1, levels1)" by (cases p)
    have "x \<noteq> r"
      using Inr process_unknown_warehouse [OF Cons.prems(2) assms(3,4,5), of P res] by auto
    with Cons.prems(1) have "r \<in> set os" by auto
    moreover have "s \<in> set levels1"
      using process_keeps_unknown [OF Inr [unfolded p] Cons.prems(2) assms(5)] .
    ultimately obtain e where "run_orders P ws os res1 levels1 = Inl e"
      using Cons.IH by blast
    with Inr p show ?thesis by (simp add: bind_err_simps)
  qed
qed

text \<open>
  C9. If the input stock has a record that is feasible for some input order (the
  order's product, and a quantity that covers the order) and whose warehouse
  identifier has no row in \<^verbatim>\<open>warehouses\<close>, then \<^verbatim>\<open>optimize\<close> raises: the call ends
  with its \<^verbatim>\<open>ValueError\<close> and returns no plan, not even a partial one. (Such a record
  is never depleted, so it is still feasible when the order's turn comes, unless the
  run has failed before.) The fault is not absorbed as the exclusion of one candidate.
\<close>

theorem unknown_warehouse_fails_run:
  assumes "r \<in> set orders" and "s \<in> set (frames h inventory)"
    and "stock_product_id s = product_id r" and "quantity r \<le> current_stock s"
    and "\<forall>w\<in>set ws. warehouse_id w \<noteq> stock_warehouse_id s"
  shows "\<exists>e. fst (optimize self P ws orders inventory t0 t1 h) = Inl (OptimizationError e)"
proof -
  have "r \<in> set (sort_values orders)" using assms(1) by (simp add: set_sort_values)
  from run_unknown_warehouse [OF this assms(2-5)]
  obtain e where "run_orders P ws (sort_values orders) initial_results (frames h inventory) = Inl e"
    by blast
  then show ?thesis by (simp add: optimize_fst)
qed

theorem unknown_warehouse_fails_run_witness:
  "O1 \<in> set [O1] \<and> S1 \<in> set (frames store_A 0) \<and> stock_product_id S1 = product_id O1
   \<and> quantity O1 \<le> current_stock S1 \<and> warehouse_id W9 \<noteq> stock_warehouse_id S1
   \<and> fst (optimize init_optimizer exact_unit [W9] [O1] 0 0 1 store_A) = Inl (OptimizationError IndexError)"
proof -
  have a: "O1 \<in> set [O1]" and b: "S1 \<in> set (frames store_A 0)"
    and c: "stock_product_id S1 = product_id O1" and d: "quantity O1 \<le> current_stock S1"
    and e: "\<forall>w\<in>set [W9]. warehouse_id w \<noteq> stock_warehouse_id S1"
    by (simp_all add: store_A_def S1_def O1_def W9_def)
  have "consider_candidate exact_unit [W9] O1 S1 initial_best = Inl IndexError"
    by (simp add: consider_candidate_def lookup_warehouse_def bind_err_simps S1_def O1_def W9_def)
  then have "process_order exact_unit [W9] O1 initial_results [S1] = Inl IndexError"
    by (simp add: process_order_def bind_err_simps) (simp add: S1_def O1_def bind_err_simps)
  then have "fst (optimize init_optimizer exact_unit [W9] [O1] 0 0 1 store_A) = Inl (OptimizationError IndexError)"
    unfolding optimize_fst sort_O1_O2 by (simp add: store_A_def bind_err_simps)
  then show ?thesis
    using unknown_warehouse_fails_run [OF a b c d e, of init_optimizer exact_unit 0 1] a b c d e
    by simp
qed

section \<open>The stock after a run (C2)\<close>

lemma map_of_append_entry:
  "map_of (append_entry w e p) k =
     (if k = w then map_option (\<lambda>es. es @ [e]) (map_of p k) else map_of p k)"
  by (induction p) (auto simp: append_entry_def)

lemma map_of_ensure_key:
  "map_of (ensure_key w p) k = (if k = w \<and> map_of p w = None then Some [] else map_of p k)"
proof -
  have "w \<in> set (map fst p) \<longleftrightarrow> map_of p w \<noteq> None"
    by (simp add: map_of_eq_None_iff)
  then show ?thesis
    by (cases "map_of p k") (auto simp: ensure_key_def map_add_def)
qed

lemma plan_at_commit:
  "plan_at (append_entry w e (ensure_key w p)) wid = plan_at p wid @ (if wid = w then [e] else [])"
  by (auto simp: plan_at_def map_of_append_entry map_of_ensure_key split: option.splits)

lemma allocated_quantity_commit:
  "allocated_quantity orders (append_entry w e (ensure_key w p)) wid pid =
     allocated_quantity orders p wid pid +
       (if wid = w \<and> order_product orders (entry_order_id e) = Some pid then entry_quantity e else 0)"
  by (simp add: allocated_quantity_def plan_at_commit)

lemma order_product_distinct:
  "distinct (map order_id orders) \<Longrightarrow> r \<in> set orders
   \<Longrightarrow> order_product orders (order_id r) = Some (product_id r)"
  unfolding order_product_def
  by (rule map_of_is_SomeI) (auto simp: comp_def)

lemma list_all2_map_self: "(\<And>x. x \<in> set xs \<Longrightarrow> R x (f x)) \<Longrightarrow> list_all2 R xs (map f xs)"
  by (induction xs) auto

lemma process_order_depletion:
  assumes "process_order P ws r res levels = Inr (res', levels')"
    and "order_product orders (order_id r) = Some (product_id r)"
  shows "list_all2 (depleted_by orders (allocation_plan res) (allocation_plan res')) levels levels'"
  using assms(1)
proof (cases rule: process_order_cases)
  case (commit wid c d)
  have "depleted_by orders (allocation_plan res) (allocation_plan res') s
          (if stock_warehouse_id s = wid \<and> stock_product_id s = product_id r
           then s\<lparr>current_stock := current_stock s - quantity r\<rparr> else s)" for s
    using assms(2)
    by (auto simp: depleted_by_def stock_key_def commit(2) committed_def allocated_quantity_commit)
  then show ?thesis
    unfolding commit(3) deplete_def by (intro list_all2_map_self)
next
  case (unfulfilled b)
  then show ?thesis
    by (auto simp: unfulfilled_def depleted_by_def list_all2_same)
qed

lemma depleted_by_trans:
  "depleted_by orders p p1 a b \<Longrightarrow> depleted_by orders p1 p2 b c \<Longrightarrow> depleted_by orders p p2 a c"
  by (auto simp: depleted_by_def stock_key_def)

lemma run_orders_depletion:
  assumes "run_orders P ws os res levels = Inr (res', levels')"
    and "\<forall>r\<in>set os. order_product orders (order_id r) = Some (product_id r)"
  shows "list_all2 (depleted_by orders (allocation_plan res) (allocation_plan res')) levels levels'"
  using assms
proof (induction os arbitrary: res levels)
  case Nil
  then show ?case by (auto simp: depleted_by_def list_all2_same)
next
  case (Cons r os)
  from Cons.prems(1) obtain res1 levels1 where
    step: "process_order P ws r res levels = Inr (res1, levels1)"
    and rest: "run_orders P ws os res1 levels1 = Inr (res', levels')"
    by (cases "process_order P ws r res levels") (auto simp: bind_err_simps)
  have 1: "list_all2 (depleted_by orders (allocation_plan res) (allocation_plan res1)) levels levels1"
    using step Cons.prems(2) by (intro process_order_depletion) auto
  have 2: "list_all2 (depleted_by orders (allocation_plan res1) (allocation_plan res')) levels1 levels'"
    using rest Cons.prems(2) by (intro Cons.IH) auto
  show ?case
    by (rule list_all2_trans [OF _ 1 2]) (rule depleted_by_trans)
qed

lemma list_all2_keys: "list_all2 (\<lambda>s s'. stock_key s' = stock_key s) xs ys \<Longrightarrow> map stock_key ys = map stock_key xs"
  by (induction rule: list_all2_induct) auto

lemma process_order_nonneg:
  assumes "process_order P ws r res levels = Inr (res', levels')"
    and "distinct (map stock_key levels)" and "0 \<le> quantity r"
  shows "list_all2 stays_nonneg levels levels'"
  using assms(1)
proof (cases rule: process_order_cases)
  case (commit wid c d)
  from commit_origin [OF commit(1)] obtain cand where cand: "cand \<in> set levels"
    "stock_warehouse_id cand = wid" "stock_product_id cand = product_id r"
    "quantity r \<le> current_stock cand" by blast
  have inj: "inj_on stock_key (set levels)"
    using assms(2) by (simp add: distinct_map)
  have "stays_nonneg s
          (if stock_warehouse_id s = wid \<and> stock_product_id s = product_id r
           then s\<lparr>current_stock := current_stock s - quantity r\<rparr> else s)" if "s \<in> set levels" for s
  proof (cases "stock_warehouse_id s = wid \<and> stock_product_id s = product_id r")
    case True
    then have "stock_key s = stock_key cand" using cand by (simp add: stock_key_def)
    with inj that cand(1) have "s = cand" by (auto dest: inj_onD)
    with cand(4) have "quantity r \<le> current_stock s" by simp
    then show ?thesis using True by (simp add: stays_nonneg_def stock_key_def)
  next
    case False
    then show ?thesis by (auto simp: stays_nonneg_def)
  qed
  then show ?thesis
    unfolding commit(3) deplete_def by (intro list_all2_map_self)
next
  case (unfulfilled b)
  then show ?thesis by (simp add: stays_nonneg_def list_all2_same)
qed

lemma stays_nonneg_trans: "stays_nonneg a b \<Longrightarrow> stays_nonneg b c \<Longrightarrow> stays_nonneg a c"
  by (auto simp: stays_nonneg_def)

lemma run_orders_nonneg:
  assumes "run_orders P ws os res levels = Inr (res', levels')"
    and "distinct (map stock_key levels)" and "\<forall>r\<in>set os. 0 \<le> quantity r"
  shows "list_all2 stays_nonneg levels levels'"
  using assms
proof (induction os arbitrary: res levels)
  case Nil
  then show ?case by (simp add: stays_nonneg_def list_all2_same)
next
  case (Cons r os)
  from Cons.prems(1) obtain res1 levels1 where
    step: "process_order P ws r res levels = Inr (res1, levels1)"
    and rest: "run_orders P ws os res1 levels1 = Inr (res', levels')"
    by (cases "process_order P ws r res levels") (auto simp: bind_err_simps)
  have 1: "list_all2 stays_nonneg levels levels1"
    using step Cons.prems(2,3) by (intro process_order_nonneg) auto
  then have "list_all2 (\<lambda>s s'. stock_key s' = stock_key s) levels levels1"
    by (rule list_all2_mono) (simp add: stays_nonneg_def)
  then have "distinct (map stock_key levels1)"
    using Cons.prems(2) by (simp add: list_all2_keys)
  then have 2: "list_all2 stays_nonneg levels1 levels'"
    using rest Cons.prems(3) by (intro Cons.IH) auto
  show ?case
    by (rule list_all2_trans [OF _ 1 2]) (rule stays_nonneg_trans)
qed

text \<open>
  C2. After a successful run, the engine's working copy (the frame at the reference
  \<open>next_ref h\<close> that the copy was given) has the rows of the caller's inventory, in the
  same order and with the same warehouse and product, and each row's quantity is the
  quantity before the run minus the sum of the quantities allocated against its
  warehouse and product in the returned plan. With at most one stock record per
  warehouse and product and no negative order quantity, a quantity that was not
  negative before the run is not negative after it: a record is only depleted by an
  order whose quantity it covers. Orders are told apart by their identifiers, which
  the data model makes unique, so that the entries of the plan can be attributed to
  products.
\<close>

theorem stock_after_run:
  assumes "fst (optimize self P ws orders inventory t0 t1 h) = Inr res"
    and "distinct (map order_id orders)"
    and "distinct (map (\<lambda>s. (stock_warehouse_id s, stock_product_id s)) (frames h inventory))"
    and "\<forall>r\<in>set orders. 0 \<le> quantity r"
  shows "list_all2
          (\<lambda>s s'. stock_warehouse_id s' = stock_warehouse_id s
               \<and> stock_product_id s' = stock_product_id s
               \<and> current_stock s' = current_stock s
                    - allocated_quantity orders (allocation_plan res)
                        (stock_warehouse_id s) (stock_product_id s)
               \<and> (0 \<le> current_stock s \<longrightarrow> 0 \<le> current_stock s'))
          (frames h inventory)
          (frames (snd (optimize self P ws orders inventory t0 t1 h)) (next_ref h))"
proof -
  from assms(1) obtain res0 levels where
    run: "run_orders P ws (sort_values orders) initial_results (frames h inventory) = Inr (res0, levels)"
    and res: "res = res0\<lparr>solving_time := py_sub P (Fin t1) (Fin t0), status := ''Completed''\<rparr>"
    by (rule optimize_success)
  have copy: "frames (snd (optimize self P ws orders inventory t0 t1 h)) (next_ref h) = levels"
    using run by (rule optimize_working_copy)
  have "\<forall>r\<in>set (sort_values orders). order_product orders (order_id r) = Some (product_id r)"
    using assms(2) by (simp add: set_sort_values order_product_distinct)
  from run_orders_depletion [OF run this]
  have 1: "list_all2 (depleted_by orders [] (allocation_plan res)) (frames h inventory) levels"
    by (simp add: res initial_results_def)
  have "distinct (map stock_key (frames h inventory))"
    using assms(3) by (simp add: stock_key_def [abs_def])
  moreover have "\<forall>r\<in>set (sort_values orders). 0 \<le> quantity r"
    using assms(4) by (simp add: set_sort_values)
  ultimately have 2: "list_all2 stays_nonneg (frames h inventory) levels"
    using run by (intro run_orders_nonneg)
  have "list_all2 (\<lambda>s s'. depleted_by orders [] (allocation_plan res) s s' \<and> stays_nonneg s s')
          (frames h inventory) levels"
    using 1 2 by (simp add: list_all2_conv_all_nth)
  then show ?thesis
    unfolding copy
    by (rule list_all2_mono)
       (auto simp: depleted_by_def stays_nonneg_def stock_key_def allocated_quantity_def plan_at_def)
qed

theorem stock_after_run_witness:
  "fst (optimize init_optimizer exact_unit [W1] [O2, O1] 0 0 1 store_A) = Inr plan_D
   \<and> distinct (map order_id [O2, O1])
   \<and> distinct (map (\<lambda>s. (stock_warehouse_id s, stock_product_id s)) (frames store_A 0))
   \<and> 0 \<le> quantity O2 \<and> 0 \<le> quantity O1
   \<and> frames store_A 0 = [S1]
   \<and> frames (snd (optimize init_optimizer exact_unit [W1] [O2, O1] 0 0 1 store_A)) (next_ref store_A)
       = [S1\<lparr>current_stock := 0\<rparr>]
   \<and> allocated_quantity [O2, O1] (allocation_plan plan_D) ''W1'' ''P1'' = 500
   \<and> current_stock (S1\<lparr>current_stock := 0\<rparr>)
       = current_stock S1 - allocated_quantity [O2, O1] (allocation_plan plan_D) ''W1'' ''P1''"
proof -
  have a: "distinct (map order_id [O2, O1])" by (simp add: O1_def O2_def)
  have b: "distinct (map (\<lambda>s. (stock_warehouse_id s, stock_product_id s)) (frames store_A 0))"
    by (simp add: store_A_def)
  have c: "\<forall>r\<in>set [O2, O1]. 0 \<le> quantity r" by (simp add: O1_def O2_def)
  have f: "frames store_A 0 = [S1]" by (simp add: store_A_def)
  have q: "allocated_quantity [O2, O1] (allocation_plan plan_D) ''W1'' ''P1'' = 500"
    by (simp add: allocated_quantity_def plan_at_def plan_D_def order_product_def O1_def O2_def)
  show ?thesis
    using stock_after_run [OF optimize_D [of init_optimizer] a b c] a b c
    by (simp add: optimize_D working_copy_D f q) (simp add: S1_def)
qed

section \<open>Malformed coordinates (C5)\<close>

lemma py_arith_nan [simp]:
  "py_add fu x NaN = NaN" "py_mul fu x NaN = NaN" "py_sub fu x NaN = NaN"
  by (cases x; simp)+

lemma py_atan2_nan [simp]: "py_atan2 fu NaN x = NaN" "py_atan2 fu y NaN = NaN"
  by (simp_all add: py_atan2_def)




lemma py_half_nan: "py_half fu x = NaN \<Longrightarrow> \<not> is_fin x \<Longrightarrow> x = NaN"
  by (cases x) auto







lemma py_lt_top [simp]: "py_lt PInf b = False" "py_lt NaN b = False"
  by (cases b; simp)+






section \<open>The choice of the warehouse (C1)\<close>













lemma haversine_a_bounds:
  fixes x y v :: real
  defines "A \<equiv> (sin ((y - x) / 2))\<^sup>2 + cos x * cos y * (sin v)\<^sup>2"
  shows "0 \<le> A" and "A \<le> 1"
proof -
  define s where "s = (sin v)\<^sup>2"
  define p where "p = cos (y - x)"
  define q where "q = cos (y + x)"
  have s0: "0 \<le> s" by (simp add: s_def)
  have s1: "s \<le> 1" unfolding s_def using sin_cos_squared_add [of v] zero_le_power2 [of "cos v"] by linarith
  have p1: "p \<le> 1" "- 1 \<le> p" and q1: "q \<le> 1" "- 1 \<le> q" by (simp_all add: p_def q_def)
  have "2 * ((y - x) / 2) = y - x" by simp
  with cos_double_sin [of "(y - x) / 2"]
  have "cos (y - x) = 1 - 2 * (sin ((y - x) / 2))\<^sup>2" by (simp only:)
  then have e1: "(sin ((y - x) / 2))\<^sup>2 = (1 - p) / 2"
    unfolding p_def by (simp add: field_simps)
  have e2: "cos x * cos y = (p + q) / 2"
    by (simp add: p_def q_def cos_add cos_diff)
  have A: "2 * A = 1 - p + p * s + q * s"
    unfolding A_def e1 e2 s_def [symmetric] by (simp add: field_simps)
  have "0 \<le> (1 - p) * (1 - s)" "0 \<le> (1 + p) * (1 - s)" "0 \<le> (1 - q) * s" "0 \<le> (1 + q) * s"
    using s0 s1 p1 q1 by simp_all
  then have b: "0 \<le> 1 - s - p + p * s" "0 \<le> 1 - s + p - p * s" "0 \<le> s - q * s" "0 \<le> s + q * s"
    by (simp_all add: algebra_simps)
  show "0 \<le> A" using A b by linarith
  show "A \<le> 1" using A b by linarith
qed

text \<open>
  On the machine that does not round, the distance of finite coordinates is the
  great-circle distance of the specification. (On a real machine the steps round, and
  near antipodal points \<open>a\<close> can exceed 1, so that the square root raises and the
  sentinel is returned.)
\<close>

lemma haversine_exact:
  "haversine exact_unit (radians exact_unit (Fin a)) (radians exact_unit (Fin b))
     (radians exact_unit (Fin c)) (radians exact_unit (Fin e))
     = Inr (Fin (haversine_km a b c e))"
proof -
  let ?A = "(sin ((c * pi / 180 - a * pi / 180) / 2))\<^sup>2
            + cos (a * pi / 180) * cos (c * pi / 180) * (sin ((e * pi / 180 - b * pi / 180) / 2))\<^sup>2"
  have "0 \<le> ?A" "?A \<le> 1" by (rule haversine_a_bounds)+
  then show ?thesis
    by (simp add: haversine_def haversine_km_def bind_err_simps Let_def power2_eq_square not_less
          py_atan2_def)
qed

lemma calculate_distance_exact:
  assumes "coordinate exact_unit (latitude w) = Inr (Fin a)"
    and "coordinate exact_unit (longitude w) = Inr (Fin b)"
    and "coordinate exact_unit (delivery_latitude r) = Inr (Fin c)"
    and "coordinate exact_unit (delivery_longitude r) = Inr (Fin e)"
  shows "calculate_distance exact_unit w r = Fin (haversine_km a b c e)"
proof -
  have "calculate_distance_try exact_unit w r
      = haversine exact_unit (radians exact_unit (Fin a)) (radians exact_unit (Fin b))
          (radians exact_unit (Fin c)) (radians exact_unit (Fin e))"
    using assms
    by (cases "latitude w"; cases "longitude w"; cases "delivery_latitude r"; cases "delivery_longitude r")
       (auto simp: calculate_distance_try_def coordinate_def bind_err_def split: sum.splits)
  then show ?thesis
    unfolding calculate_distance_def by (simp only: haversine_exact sum.case)
qed














end
